theory Spec2Isabelle
  imports Complex_Main "HOL-Library.Multiset"
begin

section \<open>JavaScript numbers\<close>

text \<open>
  The quantities of the program are JavaScript numbers, that is IEEE 754 doubles. The
  forms accept integers only (\<open>Number.isInteger\<close>), and sums and differences of integer
  doubles are integer doubles or infinite, so a \<open>number\<close> field holds an integer, an
  infinity or \<open>NaN\<close>; \<open>-0\<close> is not distinguished from \<open>0\<close>. Every double of magnitude
  \<open>2^53\<close> or more is an integer, with \<open>ulp\<close> the distance to the next one.
\<close>

datatype number = Finite int | PosInfinity | NegInfinity | NotANumber

fun ulp :: "nat \<Rightarrow> nat" where
  "ulp n = (if n < 2 ^ 53 then 1 else 2 * ulp (n div 2))"

text \<open>The double nearest to a natural number, ties to the even significand.\<close>

definition roundTiesToEven :: "nat \<Rightarrow> nat" where
  "roundTiesToEven n =
     (let u = ulp n; q = n div u; r = n mod u
      in if 2 * r < u \<or> (2 * r = u \<and> even q) then q * u else (q + 1) * u)"

text \<open>
  The double that an integer result is rounded to: the largest finite double is
  \<open>2^1024 - 2^971\<close>, and what rounds to \<open>2^1024\<close> is infinite.
\<close>

definition fl :: "int \<Rightarrow> number" where
  "fl i =
     (let m = int (roundTiesToEven (nat \<bar>i\<bar>))
      in if m < 2 ^ 1024 then Finite (if i < 0 then - m else m)
         else if i < 0 then NegInfinity else PosInfinity)"

text \<open>
  The operators of the language on these values: \<open>x + y\<close> rounds the exact sum, \<open>-x\<close>,
  \<open>x < y\<close> and \<open>x <= y\<close> (both false when an operand is \<open>NaN\<close>), and the literal \<open>0\<close>.
\<close>

instantiation number :: "{zero, plus, uminus, ord}"
begin

definition zero_number :: number where
  "zero_number = Finite 0"

fun plus_number :: "number \<Rightarrow> number \<Rightarrow> number" where
  "plus_number (Finite a) (Finite b) = fl (a + b)"
| "plus_number NotANumber y = NotANumber"
| "plus_number x NotANumber = NotANumber"
| "plus_number PosInfinity NegInfinity = NotANumber"
| "plus_number NegInfinity PosInfinity = NotANumber"
| "plus_number PosInfinity y = PosInfinity"
| "plus_number x PosInfinity = PosInfinity"
| "plus_number NegInfinity y = NegInfinity"
| "plus_number x NegInfinity = NegInfinity"

fun uminus_number :: "number \<Rightarrow> number" where
  "uminus_number (Finite a) = Finite (- a)"
| "uminus_number PosInfinity = NegInfinity"
| "uminus_number NegInfinity = PosInfinity"
| "uminus_number NotANumber = NotANumber"

fun less_number :: "number \<Rightarrow> number \<Rightarrow> bool" where
  "less_number (Finite a) (Finite b) = (a < b)"
| "less_number NotANumber y = False"
| "less_number x NotANumber = False"
| "less_number x NegInfinity = False"
| "less_number NegInfinity y = True"
| "less_number PosInfinity y = False"
| "less_number x PosInfinity = True"

definition less_eq_number :: "number \<Rightarrow> number \<Rightarrow> bool" where
  "less_eq_number x y = (x < y \<or> (x = y \<and> x \<noteq> NotANumber))"

instance ..

end

text \<open>\<open>Number.isSafeInteger\<close>: an integer of magnitude at most \<open>2^53 - 1\<close>.\<close>

definition isSafeInteger :: "number \<Rightarrow> bool" where
  "isSafeInteger x = (case x of Finite a \<Rightarrow> \<bar>a\<bar> \<le> 2 ^ 53 - 1 | _ \<Rightarrow> False)"

text \<open>
  \<open>Number.prototype.toString()\<close>, also behind a template literal. An integer below
  \<open>10^21\<close> is printed with all its decimal digits; from \<open>10^21\<close> on the result has an
  exponent and the fewest significant digits that still denote the same double
  (\<open>shortest\<close> tries 1, 2, ... digits, and with the same number of digits prefers the
  decimal nearer to the double). For an integer that is no double the search ends with all
  its digits.
\<close>

definition digit :: "nat \<Rightarrow> char" where
  "digit n = ''0123456789'' ! n"

fun digits :: "nat \<Rightarrow> string" where
  "digits n = (if n < 10 then [digit n] else digits (n div 10) @ [digit (n mod 10)])"

fun shortest :: "nat \<Rightarrow> nat \<Rightarrow> nat \<Rightarrow> nat \<Rightarrow> nat" where
  "shortest 0 x n k = x"
| "shortest (Suc fuel) x n k =
     (let scale = 10 ^ (n - k);
          lo = x div scale;
          hi = lo + 1;
          okLo = (fl (int (lo * scale)) = Finite (int x));
          okHi = (fl (int (hi * scale)) = Finite (int x));
          nearerLo = (x - lo * scale < hi * scale - x \<or>
                      (x - lo * scale = hi * scale - x \<and> even lo))
      in if okLo \<and> (\<not> okHi \<or> nearerLo) then lo * scale
         else if okHi then hi * scale
         else shortest fuel x n (k + 1))"

definition exponential :: "nat \<Rightarrow> string" where
  "exponential x =
     (let n = length (digits x);
          v = digits (shortest n x n 1);
          e = length v - 1;
          m = rev (dropWhile (\<lambda>c. c = CHR ''0'') (rev v))
      in hd m # (if tl m = [] then [] else CHR ''.'' # tl m) @ ''e+'' @ digits e)"

definition toStringNat :: "nat \<Rightarrow> string" where
  "toStringNat x = (if x < 10 ^ 21 then digits x else exponential x)"

fun toString :: "number \<Rightarrow> string" where
  "toString (Finite i) =
     (if i < 0 then CHR ''-'' # toStringNat (nat (- i)) else toStringNat (nat i))"
| "toString PosInfinity = ''Infinity''"
| "toString NegInfinity = ''-Infinity''"
| "toString NotANumber = ''NaN''"


section \<open>Data model (lib/types, in src/unnamed/part_006)\<close>

text \<open>
  The records follow the TypeScript interfaces field by field. Field names carry a short
  prefix where two interfaces share a name (\<open>id\<close>, \<open>name\<close>, \<open>isArchived\<close>, ...).
  Optional fields (\<open>description?: string\<close>) are options. A \<open>Date\<close>, a Firestore
  \<open>Timestamp\<close> and an ISO date string (\<open>toISOString()\<close>) are all the instant they denote,
  in milliseconds since the epoch, so that \<open>new Date(s).getTime()\<close> is the identity on a
  \<open>timestamp\<close> field.
\<close>

record Warehouse =
  wh_id :: string
  wh_name :: string
  wh_description :: "string option"
  wh_isArchived :: bool
  wh_createdAt :: int
  wh_updatedAt :: int
  wh_ownerId :: "string option"

datatype HistoryEntryType =
    CREATE_ITEM
  | ADD_STOCK
  | CONSUME_STOCK
  | ADJUST_STOCK
  | CREATE_WAREHOUSE
  | UPDATE_WAREHOUSE
  | DELETE_WAREHOUSE

record HistoryEntry =
  entry_id :: string
  entry_type :: HistoryEntryType
  change :: number
  quantityBefore :: number
  quantityAfter :: number
  comment :: "string option"
  timestamp :: int

record Item =
  item_id :: string
  item_warehouseId :: string
  item_name :: string
  quantity :: number
  location :: "string option"
  item_createdAt :: int
  item_updatedAt :: int
  history :: "HistoryEntry list"
  item_isArchived :: bool
  item_ownerId :: "string option"

record FlattenedHistoryEntry = HistoryEntry +
  itemName :: string
  warehouseName :: string
  itemId :: string
  warehouseId :: string

datatype ReportType = ITEM | WAREHOUSE | TRANSACTIONS

record ItemQuantity =
  iq_name :: string
  iq_quantity :: number

record ArchivedReport =
  report_id :: string
  reportType :: "ReportType option"
  report_warehouseId :: "string option"
  report_warehouseName :: "string option"
  warehouseDescription :: "string option"
  report_itemId :: "string option"
  report_itemName :: "string option"
  printedBy :: string
  printedAt :: int
  historySnapshot :: "HistoryEntry list option"
  itemsSnapshot :: "ItemQuantity list option"
  transactionsSnapshot :: "FlattenedHistoryEntry list option"
  reportTitleSnapshot :: "string option"


section \<open>JavaScript helpers\<close>

text \<open>Truthiness of an optional string: \<open>undefined\<close> and \<open>""\<close> are falsy.\<close>

definition truthy :: "string option \<Rightarrow> bool" where
  "truthy s = (case s of None \<Rightarrow> False | Some v \<Rightarrow> v \<noteq> [])"

text \<open>\<open>s || d\<close> on an optional string.\<close>

definition or_else :: "string option \<Rightarrow> string \<Rightarrow> string" where
  "or_else s d = (case s of None \<Rightarrow> d | Some v \<Rightarrow> if v = [] then d else v)"

text \<open>
  The result of \<open>z.coerce.number()\<close> on a form input, before the schema's checks: a
  double is \<open>NaN\<close>, infinite, or a rational number (here it need not be an integer).
\<close>

datatype js_number = NaN | Infinity | NegInfinity | Num rat

text \<open>\<open>Number.isInteger\<close> on a finite number, the check behind zod's \<open>.int()\<close>.\<close>

definition isInteger :: "rat \<Rightarrow> bool" where
  "isInteger r = (of_int \<lfloor>r\<rfloor> = r)"


section \<open>The document store (Firestore) and the environment of a handler\<close>

text \<open>
  What a handler reads from outside the program during one run: the clock (\<open>new Date()\<close>
  and \<open>Date.now()\<close> are two separate reads), the instant the server substitutes for
  \<open>serverTimestamp()\<close>, the document id \<open>addDoc\<close> generates, whether the remote calls
  on each collection succeed (a rejected promise is the \<open>catch\<close> branch of the handler),
  and whether \<open>localStorage.setItem\<close> succeeds. The clock readings are time values:
  integers of magnitude at most 8 640 000 000 000 000.
\<close>

record env =
  newDate :: int
  dateNow :: int
  serverTime :: int
  autoId :: string
  itemsWriteOk :: bool
  itemsQueryOk :: bool
  warehousesWriteOk :: bool
  storageOk :: bool

text \<open>
  The object literal passed to \<open>updateDoc\<close> or \<open>batch.update\<close>, one constructor per
  field that the source writes.
\<close>

datatype item_field =
    F_quantity number
  | F_updatedAt_serverTimestamp
  | F_history_arrayUnion HistoryEntry
  | F_isArchived bool

datatype warehouse_field =
    W_isArchived bool
  | W_updatedAt_serverTimestamp

text \<open>The write requests a handler sends to the store, in the order they are sent.\<close>

datatype call =
    AddDoc_items Item
  | UpdateDoc_items string "item_field list"
  | UpdateDoc_warehouses string "warehouse_field list"
  | BatchCommit_items "(string \<times> item_field list) list"

record firestore =
  db_items :: "Item list"
  db_warehouses :: "Warehouse list"
  db_calls :: "call list"

datatype promise = Resolved | Rejected

text \<open>\<open>arrayUnion(e)\<close> appends \<open>e\<close> unless an equal element is already in the array.\<close>

definition arrayUnion :: "'a list \<Rightarrow> 'a \<Rightarrow> 'a list" where
  "arrayUnion xs e = (if e \<in> set xs then xs else xs @ [e])"

fun apply_item_field :: "env \<Rightarrow> item_field \<Rightarrow> Item \<Rightarrow> Item" where
  "apply_item_field ev (F_quantity q) i = i\<lparr>quantity := q\<rparr>"
| "apply_item_field ev F_updatedAt_serverTimestamp i = i\<lparr>item_updatedAt := serverTime ev\<rparr>"
| "apply_item_field ev (F_history_arrayUnion e) i = i\<lparr>history := arrayUnion (history i) e\<rparr>"
| "apply_item_field ev (F_isArchived b) i = i\<lparr>item_isArchived := b\<rparr>"

fun apply_warehouse_field :: "env \<Rightarrow> warehouse_field \<Rightarrow> Warehouse \<Rightarrow> Warehouse" where
  "apply_warehouse_field ev (W_isArchived b) w = w\<lparr>wh_isArchived := b\<rparr>"
| "apply_warehouse_field ev W_updatedAt_serverTimestamp w = w\<lparr>wh_updatedAt := serverTime ev\<rparr>"

definition update_item :: "env \<Rightarrow> string \<Rightarrow> item_field list \<Rightarrow> Item \<Rightarrow> Item" where
  "update_item ev iid flds i =
     (if item_id i = iid then fold (apply_item_field ev) flds i else i)"

definition update_warehouse ::
  "env \<Rightarrow> string \<Rightarrow> warehouse_field list \<Rightarrow> Warehouse \<Rightarrow> Warehouse" where
  "update_warehouse ev wid flds w =
     (if wh_id w = wid then fold (apply_warehouse_field ev) flds w else w)"

text \<open>
  \<open>addDoc(collection(db, "items"), data)\<close>: the document is stored under the generated id
  (a document already stored under that id would be replaced).
\<close>

definition addDoc_items :: "env \<Rightarrow> Item \<Rightarrow> firestore \<Rightarrow> promise \<times> firestore" where
  "addDoc_items ev d fs =
     (let fs' = fs\<lparr>db_calls := db_calls fs @ [AddDoc_items d]\<rparr>
      in if itemsWriteOk ev
         then (Resolved,
               fs'\<lparr>db_items := filter (\<lambda>i. item_id i \<noteq> item_id d) (db_items fs) @ [d]\<rparr>)
         else (Rejected, fs'))"

text \<open>
  \<open>updateDoc(doc(db, "items", id), fields)\<close>: one request that changes all the given fields
  of the one document; it is rejected when the document does not exist.
\<close>

definition updateDoc_items ::
  "env \<Rightarrow> string \<Rightarrow> item_field list \<Rightarrow> firestore \<Rightarrow> promise \<times> firestore" where
  "updateDoc_items ev iid flds fs =
     (let fs' = fs\<lparr>db_calls := db_calls fs @ [UpdateDoc_items iid flds]\<rparr>
      in if itemsWriteOk ev \<and> iid \<in> set (map item_id (db_items fs))
         then (Resolved, fs'\<lparr>db_items := map (update_item ev iid flds) (db_items fs)\<rparr>)
         else (Rejected, fs'))"

definition updateDoc_warehouses ::
  "env \<Rightarrow> string \<Rightarrow> warehouse_field list \<Rightarrow> firestore \<Rightarrow> promise \<times> firestore" where
  "updateDoc_warehouses ev wid flds fs =
     (let fs' = fs\<lparr>db_calls := db_calls fs @ [UpdateDoc_warehouses wid flds]\<rparr>
      in if warehousesWriteOk ev \<and> wid \<in> set (map wh_id (db_warehouses fs))
         then (Resolved,
               fs'\<lparr>db_warehouses := map (update_warehouse ev wid flds) (db_warehouses fs)\<rparr>)
         else (Rejected, fs'))"

text \<open>
  \<open>writeBatch(db)\<close>, one \<open>batch.update\<close> per document, \<open>batch.commit()\<close>: all updates are
  applied together or none is.
\<close>

definition batchCommit_items ::
  "env \<Rightarrow> (string \<times> item_field list) list \<Rightarrow> firestore \<Rightarrow> promise \<times> firestore" where
  "batchCommit_items ev updates fs =
     (let fs' = fs\<lparr>db_calls := db_calls fs @ [BatchCommit_items updates]\<rparr>
      in if itemsWriteOk ev \<and> (\<forall>u \<in> set updates. fst u \<in> set (map item_id (db_items fs)))
         then (Resolved,
               fs'\<lparr>db_items := fold (\<lambda>u. map (update_item ev (fst u) (snd u))) updates (db_items fs)\<rparr>)
         else (Rejected, fs'))"


section \<open>Warehouse detail page (WarehouseDetailPage, src/app/(main)/warehouses/[warehouseId]/page.tsx)\<close>

subsection \<open>Form schemas\<close>

record raw_item_form =
  raw_name :: string
  raw_quantity :: js_number
  raw_location :: "string option"

record ItemFormValues =
  f_name :: string
  f_quantity :: number
  f_location :: "string option"

record raw_adjustment_form =
  raw_adjustmentQuantity :: js_number
  raw_comment :: "string option"

record StockAdjustmentFormValues =
  adjustmentQuantity :: number
  f_comment :: "string option"

text \<open>An issue of a schema: the field and the message.\<close>

type_synonym issue = "string \<times> string"

definition itemFormSchema :: "raw_item_form \<Rightarrow> issue list + ItemFormValues" where
  "itemFormSchema raw =
     (let name_issues =
            (if length (raw_name raw) < 2
             then [(''name'', ''Item name must be at least 2 characters.'')] else []);
          quantity_issues =
            (case raw_quantity raw of
               NaN \<Rightarrow> [(''quantity'', ''Quantity must be a number.'')]
             | Infinity \<Rightarrow> [(''quantity'', ''Quantity must be an integer.'')]
             | NegInfinity \<Rightarrow>
                 [(''quantity'', ''Quantity must be an integer.''),
                  (''quantity'', ''Quantity must be a non-negative number.'')]
             | Num r \<Rightarrow>
                 (if \<not> isInteger r then [(''quantity'', ''Quantity must be an integer.'')] else []) @
                 (if r < 0 then [(''quantity'', ''Quantity must be a non-negative number.'')]
                  else []))
      in case raw_quantity raw of
           Num r \<Rightarrow>
             (if name_issues @ quantity_issues = []
              then Inr \<lparr>f_name = raw_name raw, f_quantity = Finite \<lfloor>r\<rfloor>,
                        f_location = raw_location raw\<rparr>
              else Inl (name_issues @ quantity_issues))
         | _ \<Rightarrow> Inl (name_issues @ quantity_issues))"

definition stockAdjustmentFormSchema ::
  "raw_adjustment_form \<Rightarrow> issue list + StockAdjustmentFormValues" where
  "stockAdjustmentFormSchema raw =
     (case raw_adjustmentQuantity raw of
        NaN \<Rightarrow> Inl [(''adjustmentQuantity'', ''Quantity must be a number.'')]
      | Infinity \<Rightarrow> Inl [(''adjustmentQuantity'', ''Quantity must be an integer.'')]
      | NegInfinity \<Rightarrow>
          Inl [(''adjustmentQuantity'', ''Quantity must be an integer.''),
               (''adjustmentQuantity'', ''Adjustment quantity must be a positive number.'')]
      | Num r \<Rightarrow>
          (let issues =
                 (if \<not> isInteger r then [(''adjustmentQuantity'', ''Quantity must be an integer.'')]
                  else []) @
                 (if r \<le> 0
                  then [(''adjustmentQuantity'', ''Adjustment quantity must be a positive number.'')]
                  else [])
           in if issues = []
              then Inr \<lparr>adjustmentQuantity = Finite \<lfloor>r\<rfloor>, f_comment = raw_comment raw\<rparr>
              else Inl issues))"

subsection \<open>Page state and handlers\<close>

text \<open>\<open>useState<'ADD_STOCK' | 'CONSUME_STOCK' | null>\<close>: the two adjustment types.\<close>

datatype AdjustmentType = ADJ_ADD_STOCK | ADJ_CONSUME_STOCK

fun type_of_adjustment :: "AdjustmentType \<Rightarrow> HistoryEntryType" where
  "type_of_adjustment ADJ_ADD_STOCK = ADD_STOCK"
| "type_of_adjustment ADJ_CONSUME_STOCK = CONSUME_STOCK"

text \<open>
  The route parameter and the \<open>useState\<close> cells of the component that the handlers below
  read or write.
\<close>

record WarehouseDetailPage =
  warehouseIdFromParams :: string
  warehouse :: "Warehouse option"
  items :: "Item list"
  isStockAdjustmentDialogOpen :: bool
  itemForAdjustment :: "Item option"
  adjustmentType :: "AdjustmentType option"

text \<open>The state of the component when it is mounted: the initial values of the cells.\<close>

definition initialState :: "string \<Rightarrow> WarehouseDetailPage" where
  "initialState wid =
     \<lparr>warehouseIdFromParams = wid, warehouse = None, items = [],
      isStockAdjustmentDialogOpen = False, itemForAdjustment = None, adjustmentType = None\<rparr>"

text \<open>What the user sees when a submit handler has run.\<close>

datatype outcome =
    EarlyReturn
  | InvalidForm "issue list"
  | SetError string string string
  | ToastOk string
  | ToastError string

definition updateWarehouseTimestampInFirestore :: "env \<Rightarrow> string \<Rightarrow> firestore \<Rightarrow> firestore" where
  "updateWarehouseTimestampInFirestore ev wid fs =
     (if wid = [] then fs
      else snd (updateDoc_warehouses ev wid [W_updatedAt_serverTimestamp] fs))"

text \<open>
  \<open>loadWarehouseAndItems\<close>, as the state updates it makes when its reads have returned:
  \<open>setWarehouse\<close> and \<open>setItems\<close> with the warehouse document, when it exists and is not
  archived, and its non-archived items, most recently updated first. It writes no other
  cell: an adjustment dialog that is open keeps the item it was opened with.
\<close>

definition loadWarehouseAndItems ::
  "firestore \<Rightarrow> string \<Rightarrow> WarehouseDetailPage \<Rightarrow> WarehouseDetailPage" where
  "loadWarehouseAndItems fs idToLoad p =
     (if idToLoad = [] then p
      else
        case find (\<lambda>w. wh_id w = idToLoad) (db_warehouses fs) of
          None \<Rightarrow> p\<lparr>warehouse := None, items := []\<rparr>
        | Some w \<Rightarrow>
            if wh_isArchived w then p\<lparr>warehouse := None, items := []\<rparr>
            else
              p\<lparr>warehouse := Some (w\<lparr>wh_ownerId := Some ''placeholder-owner-id''\<rparr>),
                items := sort_key (\<lambda>i. - item_updatedAt i)
                           (filter (\<lambda>i. item_warehouseId i = idToLoad \<and> \<not> item_isArchived i)
                              (db_items fs))\<rparr>)"

definition onAddItemSubmit ::
  "env \<Rightarrow> WarehouseDetailPage \<Rightarrow> ItemFormValues \<Rightarrow> firestore \<Rightarrow> outcome \<times> firestore" where
  "onAddItemSubmit ev p data fs =
     (if warehouseIdFromParams p = [] \<or> warehouse p = None then (EarlyReturn, fs)
      else
        let initialHistoryEntry =
              \<lparr>entry_id = toString (Finite (dateNow ev)) @ ''-hist-create'',
               entry_type = CREATE_ITEM,
               change = f_quantity data,
               quantityBefore = 0,
               quantityAfter = f_quantity data,
               comment = Some ''Initial item creation'',
               timestamp = newDate ev\<rparr>;
            newItemData =
              \<lparr>item_id = autoId ev,
               item_warehouseId = warehouseIdFromParams p,
               item_name = f_name data,
               quantity = f_quantity data,
               location = Some (or_else (f_location data) []),
               item_createdAt = serverTime ev,
               item_updatedAt = serverTime ev,
               history = [initialHistoryEntry],
               item_isArchived = False,
               item_ownerId = None\<rparr>
        in case addDoc_items ev newItemData fs of
             (Rejected, fs') \<Rightarrow> (ToastError ''Error'', fs')
           | (Resolved, fs') \<Rightarrow>
               (ToastOk ''Item Added'',
                updateWarehouseTimestampInFirestore ev (warehouseIdFromParams p) fs'))"

definition handleOpenStockAdjustmentDialog ::
  "Item \<Rightarrow> AdjustmentType \<Rightarrow> WarehouseDetailPage \<Rightarrow> WarehouseDetailPage" where
  "handleOpenStockAdjustmentDialog item ty p =
     p\<lparr>itemForAdjustment := Some item, adjustmentType := Some ty,
       isStockAdjustmentDialogOpen := True\<rparr>"

text \<open>
  \<open>onStockAdjustmentSubmit\<close>: what it returns to the user and what it does to the store.
  The item it works on is \<open>itemForAdjustment\<close>, the copy the dialog was opened with.
\<close>

definition onStockAdjustmentSubmit ::
  "env \<Rightarrow> WarehouseDetailPage \<Rightarrow> StockAdjustmentFormValues \<Rightarrow> firestore
     \<Rightarrow> outcome \<times> firestore" where
  "onStockAdjustmentSubmit ev p data fs =
     (case (itemForAdjustment p, adjustmentType p) of
        (Some item, Some ty) \<Rightarrow>
          if warehouseIdFromParams p = [] then (EarlyReturn, fs)
          else
            let quantityChange =
                  (if ty = ADJ_ADD_STOCK then adjustmentQuantity data
                   else - adjustmentQuantity data)
            in if ty = ADJ_CONSUME_STOCK \<and> quantity item < adjustmentQuantity data
               then (SetError ''adjustmentQuantity'' ''manual''
                       (''Cannot consume more than available stock ('' @
                        toString (quantity item) @ '').''), fs)
               else
                 let newHistoryEntry =
                       \<lparr>entry_id = toString (Finite (dateNow ev)) @ ''-hist-adjust'',
                        entry_type = type_of_adjustment ty,
                        change = quantityChange,
                        quantityBefore = quantity item,
                        quantityAfter = quantity item + quantityChange,
                        comment = Some (or_else (f_comment data)
                                    (if ty = ADJ_ADD_STOCK then ''Stock added''
                                     else ''Stock consumed'')),
                        timestamp = newDate ev\<rparr>
                 in (case updateDoc_items ev (item_id item)
                            [F_quantity (quantity item + quantityChange),
                             F_updatedAt_serverTimestamp,
                             F_history_arrayUnion newHistoryEntry] fs of
                       (Rejected, fs') \<Rightarrow> (ToastError ''Error'', fs')
                     | (Resolved, fs') \<Rightarrow>
                         (ToastOk ''Stock Updated'',
                          updateWarehouseTimestampInFirestore ev (warehouseIdFromParams p) fs'))
      | _ \<Rightarrow> (EarlyReturn, fs))"

text \<open>
  \<open>form.handleSubmit(handler)\<close>: the resolver runs the schema; the handler is called with
  the parsed values only when the schema has no issue.
\<close>

definition submitItemForm ::
  "env \<Rightarrow> WarehouseDetailPage \<Rightarrow> raw_item_form \<Rightarrow> firestore \<Rightarrow> outcome \<times> firestore" where
  "submitItemForm ev p raw fs =
     (case itemFormSchema raw of
        Inl issues \<Rightarrow> (InvalidForm issues, fs)
      | Inr data \<Rightarrow> onAddItemSubmit ev p data fs)"

definition submitStockAdjustmentForm ::
  "env \<Rightarrow> WarehouseDetailPage \<Rightarrow> raw_adjustment_form \<Rightarrow> firestore
     \<Rightarrow> outcome \<times> firestore" where
  "submitStockAdjustmentForm ev p raw fs =
     (case stockAdjustmentFormSchema raw of
        Inl issues \<Rightarrow> (InvalidForm issues, fs)
      | Inr data \<Rightarrow> onStockAdjustmentSubmit ev p data fs)"

text \<open>The one state update of \<open>onStockAdjustmentSubmit\<close>: on success the dialog is closed.\<close>

definition afterStockAdjustment :: "outcome \<Rightarrow> WarehouseDetailPage \<Rightarrow> WarehouseDetailPage" where
  "afterStockAdjustment out p =
     (case out of ToastOk title \<Rightarrow> p\<lparr>isStockAdjustmentDialogOpen := False\<rparr> | _ \<Rightarrow> p)"

subsection \<open>One user session on the page\<close>

text \<open>
  A session is a store together with the state of the page, and what happens to them, one
  event after the other:
  \<^item> a load completes (\<open>loadWarehouseAndItems\<close> runs when the page is mounted, and the
    submit handlers start it again after a successful write, without waiting for it: until
    it completes the page lists the items as they were read before);
  \<^item> the add-item form is submitted;
  \<^item> the user clicks the add or the consume button of a row of the list, which opens the
    adjustment dialog with the item of that row;
  \<^item> the user closes the dialog (\<open>onOpenChange(false)\<close>);
  \<^item> the form of the open dialog is submitted.

  The two submissions come with what their handler reads from the environment.
\<close>

datatype action =
    Reload
  | AddItem raw_item_form env
  | OpenStockAdjustmentDialog nat AdjustmentType
  | CloseStockAdjustmentDialog
  | SubmitStockAdjustment raw_adjustment_form env

type_synonym session = "firestore \<times> WarehouseDetailPage"

fun step :: "action \<Rightarrow> session \<Rightarrow> session" where
  "step Reload (fs, p) = (fs, loadWarehouseAndItems fs (warehouseIdFromParams p) p)"
| "step (AddItem raw ev) (fs, p) = (snd (submitItemForm ev p raw fs), p)"
| "step (OpenStockAdjustmentDialog row ty) (fs, p) =
     (fs, if row < length (items p) then handleOpenStockAdjustmentDialog (items p ! row) ty p
          else p)"
| "step CloseStockAdjustmentDialog (fs, p) = (fs, p\<lparr>isStockAdjustmentDialogOpen := False\<rparr>)"
| "step (SubmitStockAdjustment raw ev) (fs, p) =
     (if isStockAdjustmentDialogOpen p
      then (snd (submitStockAdjustmentForm ev p raw fs),
            afterStockAdjustment (fst (submitStockAdjustmentForm ev p raw fs)) p)
      else (fs, p))"

definition run :: "action list \<Rightarrow> session \<Rightarrow> session" where
  "run acts s = fold step acts s"

text \<open>
  Replaying a ledger from 0: the sum of the \<open>change\<close> values, taken exactly (without the
  rounding of the program's own addition), in the given order.
\<close>

fun exactAdd :: "number \<Rightarrow> number \<Rightarrow> number" where
  "exactAdd (Finite a) (Finite b) = Finite (a + b)"
| "exactAdd x y = x + y"

definition replayLedger :: "HistoryEntry list \<Rightarrow> number" where
  "replayLedger h = fold (\<lambda>e q. exactAdd q (change e)) h 0"

definition chronological :: "HistoryEntry list \<Rightarrow> HistoryEntry list" where
  "chronological h = sort_key timestamp h"

subsection \<open>The archive of printed reports\<close>

text \<open>The \<open>archivedReports\<close> entry of \<open>localStorage\<close>, absent or a list of reports.\<close>

type_synonym localStorage = "ArchivedReport list option"

definition stored_reports :: "localStorage \<Rightarrow> ArchivedReport list" where
  "stored_reports ls = (case ls of None \<Rightarrow> [] | Some rs \<Rightarrow> rs)"


section \<open>Warehouse list page (WarehousesPage, in src/unnamed/part_004)\<close>

definition handleArchiveWarehouse ::
  "env \<Rightarrow> Warehouse option \<Rightarrow> firestore \<Rightarrow> outcome \<times> firestore" where
  "handleArchiveWarehouse ev selectedWarehouseForArchive fs =
     (case selectedWarehouseForArchive of
        None \<Rightarrow> (EarlyReturn, fs)
      | Some w \<Rightarrow>
          (case updateDoc_warehouses ev (wh_id w)
                  [W_isArchived True, W_updatedAt_serverTimestamp] fs of
             (Rejected, fs1) \<Rightarrow> (ToastError ''Error'', fs1)
           | (Resolved, fs1) \<Rightarrow>
               if \<not> itemsQueryOk ev then (ToastError ''Error'', fs1)
               else
                 let itemsSnapshot_docs =
                       filter (\<lambda>i. item_warehouseId i = wh_id w) (db_items fs1);
                     batch =
                       map (\<lambda>itemDoc. (item_id itemDoc,
                                        [F_isArchived True, F_updatedAt_serverTimestamp]))
                         itemsSnapshot_docs
                 in (case batchCommit_items ev batch fs1 of
                       (Rejected, fs2) \<Rightarrow> (ToastError ''Error'', fs2)
                     | (Resolved, fs2) \<Rightarrow> (ToastOk ''Warehouse Archived'', fs2))))"

text \<open>
  \<open>handlePrintWarehouseReport\<close>, the archiving part. The handler does not read the items
  collection: \<open>warehouseItems\<close> is the empty array literal.
\<close>

definition handlePrintWarehouseReport :: "env \<Rightarrow> Warehouse \<Rightarrow> localStorage \<Rightarrow> localStorage" where
  "handlePrintWarehouseReport ev warehouseToPrint ls =
     (let warehouseItems = [];
          archivedReport =
            \<lparr>report_id = wh_id warehouseToPrint @ ''-wh-report-'' @
                         toString (Finite (newDate ev)),
             reportType = Some WAREHOUSE,
             report_warehouseId = Some (wh_id warehouseToPrint),
             report_warehouseName = Some (wh_name warehouseToPrint),
             warehouseDescription = wh_description warehouseToPrint,
             report_itemId = None,
             report_itemName = None,
             printedBy = ''Admin User'',
             printedAt = newDate ev,
             historySnapshot = None,
             itemsSnapshot = Some warehouseItems,
             transactionsSnapshot = None,
             reportTitleSnapshot = None\<rparr>
      in if storageOk ev then Some (stored_reports ls @ [archivedReport]) else ls)"


section \<open>Reports page (ReportsPage, src/unnamed/part_002)\<close>

subsection \<open>Flattening\<close>

text \<open>\<open>{...entry, itemName: item.name, itemId: item.id, warehouseName: ..., warehouseId: ...}\<close>\<close>

definition widen :: "Item \<Rightarrow> Warehouse \<Rightarrow> HistoryEntry \<Rightarrow> FlattenedHistoryEntry" where
  "widen item wh entry =
     \<lparr>entry_id = entry_id entry, entry_type = entry_type entry, change = change entry,
      quantityBefore = quantityBefore entry, quantityAfter = quantityAfter entry,
      comment = comment entry, timestamp = timestamp entry,
      itemName = item_name item, warehouseName = wh_name wh,
      itemId = item_id item, warehouseId = wh_id wh\<rparr>"

text \<open>The body of \<open>itemsFromFirestore.forEach\<close>: what one item pushes onto \<open>flattened\<close>.\<close>

definition flatten_item :: "Warehouse list \<Rightarrow> Item \<Rightarrow> FlattenedHistoryEntry list" where
  "flatten_item warehousesFromFirestore item =
     (case find (\<lambda>wh. wh_id wh = item_warehouseId item) warehousesFromFirestore of
        None \<Rightarrow> []
      | Some wh \<Rightarrow> map (widen item wh) (history item))"

text \<open>
  The flattening step of \<open>loadData\<close> and its sort. \<open>Array.prototype.sort\<close> is stable and
  the comparator is \<open>time(b) - time(a)\<close>, so the result is the stable sort by descending
  timestamp.
\<close>

definition flattenTransactions :: "Item list \<Rightarrow> Warehouse list \<Rightarrow> FlattenedHistoryEntry list" where
  "flattenTransactions itemsFromFirestore warehousesFromFirestore =
     (let flattened = concat (map (flatten_item warehousesFromFirestore) itemsFromFirestore)
      in sort_key (\<lambda>t. - timestamp t) flattened)"

subsection \<open>Local time (ECMAScript Date)\<close>












subsection \<open>Filtering\<close>





subsection \<open>Reprinting an archived report\<close>

datatype printed =
    PrintableItemReport "string option" Item string int
  | PrintableWarehouseReport Warehouse "ItemQuantity list" string int
  | InvalidReportData

definition handlePrintArchivedReport :: "env \<Rightarrow> ArchivedReport \<Rightarrow> printed" where
  "handlePrintArchivedReport ev report =
     (case (reportType report, report_itemId report, report_itemName report,
            historySnapshot report) of
        (Some ITEM, Some iid, Some iname, Some hs) \<Rightarrow>
          if iid \<noteq> [] \<and> iname \<noteq> []
          then
            let itemForPrinting =
                  \<lparr>item_id = iid,
                   item_warehouseId = or_else (report_warehouseId report) [],
                   item_name = iname,
                   quantity = (if length hs > 0 then quantityAfter (hs ! 0) else 0),
                   location = None,
                   item_createdAt =
                     (if length hs > 0 then timestamp (hs ! (length hs - 1))
                      else printedAt report),
                   item_updatedAt =
                     (if length hs > 0 then timestamp (hs ! 0) else printedAt report),
                   history = hs,
                   item_isArchived = True,
                   item_ownerId = Some ''placeholder-owner-id''\<rparr>
            in PrintableItemReport (report_warehouseName report) itemForPrinting
                 (or_else (Some (printedBy report)) ''System'') (printedAt report)
          else InvalidReportData
      | _ \<Rightarrow>
          (case (reportType report, itemsSnapshot report, report_warehouseId report,
                 report_warehouseName report) of
             (Some WAREHOUSE, Some snapshot, Some wid, Some wname) \<Rightarrow>
               if wid \<noteq> [] \<and> wname \<noteq> []
               then
                 let warehouseForPrinting =
                       \<lparr>wh_id = wid,
                        wh_name = wname,
                        wh_description = Some (or_else (warehouseDescription report) []),
                        wh_isArchived = True,
                        wh_createdAt = newDate ev,
                        wh_updatedAt = newDate ev,
                        wh_ownerId = Some ''placeholder-owner-id''\<rparr>
                 in PrintableWarehouseReport warehouseForPrinting snapshot
                      (or_else (Some (printedBy report)) ''System'') (printedAt report)
               else InvalidReportData
           | _ \<Rightarrow> InvalidReportData))"


section \<open>Sessions, invariants and example data\<close>

text \<open>The \<open>Date.now()\<close> readings of the submitted stock adjustments of a session, in order.\<close>

fun adjustment_clocks :: "action list \<Rightarrow> int list" where
  "adjustment_clocks [] = []"
| "adjustment_clocks (SubmitStockAdjustment raw ev # acts) = dateNow ev # adjustment_clocks acts"
| "adjustment_clocks (Reload # acts) = adjustment_clocks acts"
| "adjustment_clocks (AddItem raw ev # acts) = adjustment_clocks acts"
| "adjustment_clocks (OpenStockAdjustmentDialog row ty # acts) = adjustment_clocks acts"
| "adjustment_clocks (CloseStockAdjustmentDialog # acts) = adjustment_clocks acts"

text \<open>A time value: what \<open>Date.now()\<close> and \<open>getTime()\<close> can return.\<close>

definition isTimeValue :: "int \<Rightarrow> bool" where
  "isTimeValue t = (\<bar>t\<bar> \<le> 8640000000000000)"

text \<open>
  The item the adjustment dialog holds is current when the document stored under its id
  has the same quantity. A session submits from current dialogs when this is so each time
  the adjustment form is submitted.
\<close>

definition dialog_current :: "session \<Rightarrow> bool" where
  "dialog_current s =
     (case itemForAdjustment (snd s) of
        None \<Rightarrow> True
      | Some item \<Rightarrow>
          (\<forall>i \<in> set (db_items (fst s)). item_id i = item_id item \<longrightarrow> quantity i = quantity item))"

fun submits_current :: "action list \<Rightarrow> session \<Rightarrow> bool" where
  "submits_current [] s = True"
| "submits_current (SubmitStockAdjustment raw ev # acts) s =
     (dialog_current s \<and> submits_current acts (step (SubmitStockAdjustment raw ev) s))"
| "submits_current (Reload # acts) s = submits_current acts (step Reload s)"
| "submits_current (AddItem raw ev # acts) s = submits_current acts (step (AddItem raw ev) s)"
| "submits_current (OpenStockAdjustmentDialog row ty # acts) s =
     submits_current acts (step (OpenStockAdjustmentDialog row ty) s)"
| "submits_current (CloseStockAdjustmentDialog # acts) s =
     submits_current acts (step CloseStockAdjustmentDialog s)"

text \<open>The item a successful creation stores, and the entry a successful adjustment writes.\<close>

definition created_item :: "env \<Rightarrow> string \<Rightarrow> ItemFormValues \<Rightarrow> Item" where
  "created_item ev wid data =
     \<lparr>item_id = autoId ev, item_warehouseId = wid, item_name = f_name data,
      quantity = f_quantity data, location = Some (or_else (f_location data) []),
      item_createdAt = serverTime ev, item_updatedAt = serverTime ev,
      history = [\<lparr>entry_id = toString (Finite (dateNow ev)) @ ''-hist-create'',
                  entry_type = CREATE_ITEM,
                  change = f_quantity data, quantityBefore = 0, quantityAfter = f_quantity data,
                  comment = Some ''Initial item creation'', timestamp = newDate ev\<rparr>],
      item_isArchived = False, item_ownerId = None\<rparr>"

definition quantityChange :: "AdjustmentType \<Rightarrow> StockAdjustmentFormValues \<Rightarrow> number" where
  "quantityChange ty data =
     (if ty = ADJ_ADD_STOCK then adjustmentQuantity data else - adjustmentQuantity data)"

definition adjustment_entry ::
  "env \<Rightarrow> Item \<Rightarrow> AdjustmentType \<Rightarrow> StockAdjustmentFormValues \<Rightarrow> HistoryEntry" where
  "adjustment_entry ev item ty data =
     \<lparr>entry_id = toString (Finite (dateNow ev)) @ ''-hist-adjust'',
      entry_type = type_of_adjustment ty,
      change = quantityChange ty data,
      quantityBefore = quantity item,
      quantityAfter = quantity item + quantityChange ty data,
      comment = Some (or_else (f_comment data)
                  (if ty = ADJ_ADD_STOCK then ''Stock added'' else ''Stock consumed'')),
      timestamp = newDate ev\<rparr>"

text \<open>The id of the entry an adjustment writes at \<open>Date.now() = n\<close>.\<close>

definition adjust_id :: "int \<Rightarrow> string" where
  "adjust_id n = toString (Finite n) @ ''-hist-adjust''"

text \<open>A ledger whose entries all record a safe integer as the resulting quantity.\<close>

definition safeLedger :: "HistoryEntry list \<Rightarrow> bool" where
  "safeLedger h = (\<forall>e \<in> set h. isSafeInteger (quantityAfter e))"

text \<open>
  The invariant of a session: document ids are unique, every safe ledger replays to the
  stored quantity, and every ledger entry that is not a creation entry has the id of an
  adjustment made at a clock reading in \<open>U\<close>.
\<close>

definition reconciled :: "int set \<Rightarrow> firestore \<Rightarrow> bool" where
  "reconciled U fs \<longleftrightarrow>
     distinct (map item_id (db_items fs)) \<and>
     (\<forall>i \<in> set (db_items fs).
        (safeLedger (history i) \<longrightarrow> replayLedger (history i) = quantity i) \<and>
        (\<forall>e \<in> set (history i).
           entry_type e = CREATE_ITEM \<or> (\<exists>n \<in> U. entry_id e = adjust_id n)))"


text \<open>What the batch of \<open>handleArchiveWarehouse\<close> does to one item document.\<close>

definition archive_item :: "env \<Rightarrow> Item \<Rightarrow> Item" where
  "archive_item ev i = i\<lparr>item_isArchived := True, item_updatedAt := serverTime ev\<rparr>"


subsection \<open>Example data\<close>

text \<open>
  One warehouse, and an item ``bolt'' created in it; \<open>ex_env t\<close> is the environment of a
  handler that runs at clock reading \<open>t\<close> with every remote call succeeding.
\<close>

definition ex_warehouse :: Warehouse where
  "ex_warehouse =
     \<lparr>wh_id = ''w1'', wh_name = ''Main store'', wh_description = None, wh_isArchived = False,
      wh_createdAt = 0, wh_updatedAt = 0, wh_ownerId = Some ''u1''\<rparr>"

definition ex_fs0 :: firestore where
  "ex_fs0 = \<lparr>db_items = [], db_warehouses = [ex_warehouse], db_calls = []\<rparr>"

definition ex_env :: "int \<Rightarrow> env" where
  "ex_env t =
     \<lparr>newDate = t, dateNow = t + 1, serverTime = t + 2, autoId = ''item-1'',
      itemsWriteOk = True, itemsQueryOk = True, warehousesWriteOk = True, storageOk = True\<rparr>"

definition ex_item :: "int \<Rightarrow> Item" where
  "ex_item n =
     created_item (ex_env 1000) ''w1''
       \<lparr>f_name = ''bolt'', f_quantity = Finite n, f_location = None\<rparr>"

definition ex_fs1 :: "int \<Rightarrow> firestore" where
  "ex_fs1 n = ex_fs0\<lparr>db_items := [ex_item n]\<rparr>"

text \<open>The page of the warehouse when it is mounted, and when it has loaded its data.\<close>

definition ex_page0 :: WarehouseDetailPage where
  "ex_page0 = initialState ''w1''"

definition ex_loaded :: "int \<Rightarrow> WarehouseDetailPage" where
  "ex_loaded n = loadWarehouseAndItems (ex_fs1 n) ''w1'' ex_page0"

definition ex_page :: "int \<Rightarrow> AdjustmentType \<Rightarrow> WarehouseDetailPage" where
  "ex_page n ty = handleOpenStockAdjustmentDialog (ex_item n) ty (ex_loaded n)"

text \<open>
  A session: the page loads, an item is created with 10, and after each reload a dialog is
  opened on the first row and submitted: 3 are consumed, then 5 are added.
\<close>

definition ex_acts :: "action list" where
  "ex_acts =
     [Reload,
      AddItem \<lparr>raw_name = ''bolt'', raw_quantity = Num 10, raw_location = None\<rparr> (ex_env 1000),
      Reload,
      OpenStockAdjustmentDialog 0 ADJ_CONSUME_STOCK,
      SubmitStockAdjustment \<lparr>raw_adjustmentQuantity = Num 3, raw_comment = None\<rparr> (ex_env 2000),
      Reload,
      OpenStockAdjustmentDialog 0 ADJ_ADD_STOCK,
      SubmitStockAdjustment \<lparr>raw_adjustmentQuantity = Num 5, raw_comment = Some ''delivery''\<rparr>
        (ex_env 3000)]"

text \<open>
  The same creation, followed by two adjustments of which the second is made from a dialog
  opened on the list as it was loaded before the first: the reload that the first
  adjustment starts has not completed when the user clicks again.
\<close>

definition ex_stale_acts :: "action list" where
  "ex_stale_acts =
     [Reload,
      AddItem \<lparr>raw_name = ''bolt'', raw_quantity = Num 10, raw_location = None\<rparr> (ex_env 1000),
      Reload,
      OpenStockAdjustmentDialog 0 ADJ_ADD_STOCK,
      SubmitStockAdjustment \<lparr>raw_adjustmentQuantity = Num 5, raw_comment = None\<rparr> (ex_env 2000),
      OpenStockAdjustmentDialog 0 ADJ_CONSUME_STOCK,
      SubmitStockAdjustment \<lparr>raw_adjustmentQuantity = Num 3, raw_comment = None\<rparr> (ex_env 3000)]"


text \<open>
  A session that creates an item with \<open>2^53 = 9007199254740992\<close> pieces, reloads, and opens
  the add dialog on it.
\<close>

definition ex_large_acts :: "action list" where
  "ex_large_acts =
     [Reload,
      AddItem \<lparr>raw_name = ''grain'', raw_quantity = Num 9007199254740992, raw_location = None\<rparr>
        (ex_env 1000),
      Reload,
      OpenStockAdjustmentDialog 0 ADJ_ADD_STOCK]"





text \<open>
  Ledgers and items written out by hand, a second warehouse, a store with three items (the
  third one in a warehouse that does not exist), a second session, and the item at the end of
  the first session.
\<close>

definition ex_entry :: "string \<Rightarrow> HistoryEntryType \<Rightarrow> int \<Rightarrow> int \<Rightarrow> int \<Rightarrow> HistoryEntry" where
  "ex_entry eid ty qb delta ts =
     \<lparr>entry_id = eid, entry_type = ty, change = Finite delta, quantityBefore = Finite qb,
      quantityAfter = Finite (qb + delta), comment = None, timestamp = ts\<rparr>"

definition ex_item_in :: "string \<Rightarrow> string \<Rightarrow> int \<Rightarrow> HistoryEntry list \<Rightarrow> Item" where
  "ex_item_in iid wid q h =
     \<lparr>item_id = iid, item_warehouseId = wid, item_name = ''item '' @ iid, quantity = Finite q,
      location = None, item_createdAt = 0, item_updatedAt = 0, history = h,
      item_isArchived = False, item_ownerId = None\<rparr>"

definition ex_warehouse2 :: Warehouse where
  "ex_warehouse2 =
     \<lparr>wh_id = ''w2'', wh_name = ''Annex'', wh_description = Some ''overflow'',
      wh_isArchived = False, wh_createdAt = 0, wh_updatedAt = 0, wh_ownerId = Some ''u1''\<rparr>"

definition ex_report_items :: "Item list" where
  "ex_report_items =
     [ex_item_in ''a'' ''w1'' 12
        [ex_entry ''100-hist-create'' CREATE_ITEM 0 10 100,
         ex_entry ''400-hist-adjust'' CONSUME_STOCK 10 (- 3) 400,
         ex_entry ''500-hist-adjust'' ADD_STOCK 7 5 500],
      ex_item_in ''b'' ''w2'' 1
        [ex_entry ''200-hist-create'' CREATE_ITEM 0 2 200,
         ex_entry ''300-hist-adjust'' CONSUME_STOCK 2 (- 1) 300],
      ex_item_in ''c'' ''w9'' 4
        [ex_entry ''600-hist-create'' CREATE_ITEM 0 4 600]]"

definition ex_fs2 :: firestore where
  "ex_fs2 = \<lparr>db_items = ex_report_items, db_warehouses = [ex_warehouse, ex_warehouse2],
            db_calls = []\<rparr>"




text \<open>An environment in which the writes to the items collection fail.\<close>

definition ex_env_items_down :: env where
  "ex_env_items_down = (ex_env 9000)\<lparr>itemsWriteOk := False\<rparr>"


section \<open>Lemmas\<close>

subsection \<open>Decimal rendering is injective\<close>

declare digits.simps [simp del]

lemma digit_inj: "a < 10 \<Longrightarrow> b < 10 \<Longrightarrow> digit a = digit b \<Longrightarrow> a = b"
proof -
  assume a: "a < 10" and b: "b < 10" and e: "digit a = digit b"
  have A: "a \<in> {0,1,2,3,4,5,6,7,8,9}" using a by auto
  have B: "b \<in> {0,1,2,3,4,5,6,7,8,9}" using b by auto
  show ?thesis using A B e by (auto simp: digit_def)
qed

lemma digit_not_minus: "a < 10 \<Longrightarrow> digit a \<noteq> CHR ''-''"
proof -
  assume a: "a < 10"
  have A: "a \<in> {0,1,2,3,4,5,6,7,8,9}" using a by auto
  show ?thesis using A by (auto simp: digit_def)
qed

lemma digits_nonempty: "digits n \<noteq> []"
  by (subst digits.simps) simp

lemma digits_inj: "digits n = digits m \<Longrightarrow> n = m"
proof (induction n arbitrary: m rule: digits.induct)
  case (1 n)
  show ?case
  proof (cases "n < 10")
    case True
    then have dn: "digits n = [digit n]" by (subst digits.simps) simp
    show ?thesis
    proof (cases "m < 10")
      case True
      then have "digits m = [digit m]" by (subst digits.simps) simp
      with dn "1.prems" \<open>n < 10\<close> True show ?thesis by (simp add: digit_inj)
    next
      case False
      then have "digits m = digits (m div 10) @ [digit (m mod 10)]" by (subst digits.simps) simp
      with dn "1.prems" digits_nonempty[of "m div 10"] show ?thesis by (cases "digits (m div 10)") auto
    qed
  next
    case False
    then have dn: "digits n = digits (n div 10) @ [digit (n mod 10)]" by (subst digits.simps) simp
    show ?thesis
    proof (cases "m < 10")
      case True
      then have "digits m = [digit m]" by (subst digits.simps) simp
      with dn "1.prems" digits_nonempty[of "n div 10"] show ?thesis by (cases "digits (n div 10)") auto
    next
      case mF: False
      then have dm: "digits m = digits (m div 10) @ [digit (m mod 10)]" by (subst digits.simps) simp
      from dn dm "1.prems" have e1: "digits (n div 10) = digits (m div 10)"
        and e2: "digit (n mod 10) = digit (m mod 10)" by auto
      from "1.IH"[OF False e1] have "n div 10 = m div 10" .
      moreover from e2 have "n mod 10 = m mod 10" by (intro digit_inj) auto
      ultimately show ?thesis by (metis div_mult_mod_eq)
    qed
  qed
qed

lemma digits_hd_not_minus: "hd (digits n) \<noteq> CHR ''-''"
proof (induction n rule: digits.induct)
  case (1 n)
  show ?case
  proof (cases "n < 10")
    case True
    then show ?thesis by (subst digits.simps) (simp add: digit_not_minus)
  next
    case False
    with 1 digits_nonempty[of "n div 10"] show ?thesis by (subst digits.simps) simp
  qed
qed

lemma toString_time_value:
  assumes "\<bar>t\<bar> < 10 ^ 21"
  shows "toString (Finite t) = (if t < 0 then CHR ''-'' # digits (nat (- t)) else digits (nat t))"
proof -
  from assms have "\<bar>t\<bar> < int (10 ^ 21)" by simp
  then have n: "nat \<bar>t\<bar> < 10 ^ 21" by (simp only: nat_less_iff abs_ge_zero)
  show ?thesis
  proof (cases "t < 0")
    case True
    then have "nat (- t) = nat \<bar>t\<bar>" by simp
    with n have "toStringNat (nat (- t)) = digits (nat (- t))" by (simp only: toStringNat_def if_True)
    with True show ?thesis by simp
  next
    case False
    then have "nat t = nat \<bar>t\<bar>" by simp
    with n have "toStringNat (nat t) = digits (nat t)" by (simp only: toStringNat_def if_True)
    with False show ?thesis by simp
  qed
qed

lemma toString_inj:
  assumes "\<bar>a\<bar> < 10 ^ 21" and "\<bar>b\<bar> < 10 ^ 21" and e: "toString (Finite a) = toString (Finite b)"
  shows "a = b"
proof -
  have neg: "\<And>x y. CHR ''-'' # digits x \<noteq> digits y"
    using digits_hd_not_minus by (metis list.sel(1))
  from e have d: "(if a < 0 then CHR ''-'' # digits (nat (- a)) else digits (nat a)) =
      (if b < 0 then CHR ''-'' # digits (nat (- b)) else digits (nat b))"
    by (simp only: toString_time_value[OF assms(1)] toString_time_value[OF assms(2)])
  show ?thesis
  proof (cases "a < 0")
    case True
    show ?thesis
    proof (cases "b < 0")
      case bT: True
      with True d have "digits (nat (- a)) = digits (nat (- b))" by simp
      then have "nat (- a) = nat (- b)" by (rule digits_inj)
      with True bT show ?thesis by simp
    next
      case False
      with True d neg show ?thesis by simp
    qed
  next
    case False
    show ?thesis
    proof (cases "b < 0")
      case True
      with False d neg[of "nat (- b)" "nat a"] show ?thesis by simp
    next
      case bF: False
      with False d have "digits (nat a) = digits (nat b)" by simp
      then have "nat a = nat b" by (rule digits_inj)
      with False bF show ?thesis by simp
    qed
  qed
qed

subsection \<open>Rounding and order of numbers\<close>

declare ulp.simps [simp del]

lemma ulp_small: "n < 2 ^ 53 \<Longrightarrow> ulp n = 1"
  by (subst ulp.simps) simp

lemma ulp_pos: "0 < ulp n"
  by (induction n rule: ulp.induct) (subst ulp.simps, simp)

lemma ulp_large: "2 ^ 53 \<le> n \<Longrightarrow> 2 \<le> ulp n"
proof -
  assume "2 ^ 53 \<le> n"
  then have "ulp n = 2 * ulp (n div 2)" by (subst ulp.simps) simp
  with ulp_pos[of "n div 2"] show ?thesis by simp
qed

lemma significand_large: "2 ^ 52 \<le> n \<Longrightarrow> 2 ^ 52 \<le> n div ulp n"
proof (induction n rule: ulp.induct)
  case (1 n)
  show ?case
  proof (cases "n < 2 ^ 53")
    case True
    with "1.prems" show ?thesis by (simp add: ulp_small)
  next
    case False
    then have u: "ulp n = 2 * ulp (n div 2)" by (subst ulp.simps) simp
    from False have "(2::nat) ^ 52 \<le> n div 2" by simp
    from "1.IH"[OF False this] have "2 ^ 52 \<le> (n div 2) div ulp (n div 2)" .
    then show ?thesis by (simp add: u div_mult2_eq)
  qed
qed

lemma roundTiesToEven_small: "n < 2 ^ 53 \<Longrightarrow> roundTiesToEven n = n"
  by (simp add: roundTiesToEven_def ulp_small)

lemma roundTiesToEven_large:
  assumes "2 ^ 53 \<le> n"
  shows "2 ^ 53 \<le> roundTiesToEven n"
proof -
  from assms have "(2::nat) ^ 52 \<le> n" by simp
  from significand_large[OF this] have q: "2 ^ 52 \<le> n div ulp n" .
  from ulp_large[OF assms] have u: "2 \<le> ulp n" .
  from q u have "2 ^ 52 * 2 \<le> (n div ulp n) * ulp n" by (rule mult_le_mono)
  then have a: "2 ^ 53 \<le> (n div ulp n) * ulp n" by simp
  have b: "(n div ulp n) * ulp n \<le> (n div ulp n + 1) * ulp n" by simp
  from a b show ?thesis by (auto simp: roundTiesToEven_def Let_def)
qed

lemma fl_small: "\<bar>i\<bar> < 2 ^ 53 \<Longrightarrow> fl i = Finite i"
proof -
  assume a: "\<bar>i\<bar> < 2 ^ 53"
  then have "nat \<bar>i\<bar> < 2 ^ 53" by (simp add: nat_less_iff)
  then have r: "roundTiesToEven (nat \<bar>i\<bar>) = nat \<bar>i\<bar>" by (rule roundTiesToEven_small)
  have "\<bar>i\<bar> < (2::int) ^ 1024" using a by (rule less_trans) simp
  then show ?thesis by (simp add: fl_def r Let_def)
qed

lemma fl_safe:
  assumes "fl i = Finite z" and "\<bar>z\<bar> < 2 ^ 53"
  shows "z = i"
proof (cases "\<bar>i\<bar> < 2 ^ 53")
  case True
  with assms(1) show ?thesis by (simp add: fl_small)
next
  case False
  then have "2 ^ 53 \<le> nat \<bar>i\<bar>" by (simp add: le_nat_iff)
  from roundTiesToEven_large[OF this] have "int (2 ^ 53) \<le> int (roundTiesToEven (nat \<bar>i\<bar>))"
    by (simp only: of_nat_le_iff)
  then have r: "2 ^ 53 \<le> int (roundTiesToEven (nat \<bar>i\<bar>))" by simp
  from assms(1) have "\<bar>z\<bar> = int (roundTiesToEven (nat \<bar>i\<bar>))"
    by (auto simp: fl_def Let_def split: if_splits)
  with r assms(2) show ?thesis by simp
qed


lemma pos_number_iff: "0 < x \<longleftrightarrow> (\<exists>a. x = Finite a \<and> 0 < a) \<or> x = PosInfinity"
  by (cases x) (auto simp: zero_number_def)




lemma exactAdd_right_commute: "exactAdd (exactAdd q a) b = exactAdd (exactAdd q b) a"
  by (cases q; cases a; cases b) simp_all

lemma exactAdd_safe:
  assumes "isSafeInteger (q + c)"
  shows "exactAdd q c = q + c"
proof (cases q)
  case (Finite x)
  show ?thesis
  proof (cases c)
    case (Finite y)
    from assms \<open>q = Finite x\<close> Finite obtain z where z: "fl (x + y) = Finite z" "\<bar>z\<bar> \<le> 2 ^ 53 - 1"
      by (auto simp: isSafeInteger_def split: number.splits)
    from z(2) have "\<bar>z\<bar> < 2 ^ 53" by simp
    from fl_safe[OF z(1) this] z(1) \<open>q = Finite x\<close> Finite show ?thesis by simp
  qed (simp_all add: \<open>q = Finite x\<close>)
qed simp_all

subsection \<open>What the handlers write\<close>

lemma db_items_updateWarehouseTimestamp [simp]:
  "db_items (updateWarehouseTimestampInFirestore ev wid fs) = db_items fs"
  by (simp add: updateWarehouseTimestampInFirestore_def updateDoc_warehouses_def Let_def)

lemma db_calls_updateWarehouseTimestamp:
  "db_calls (updateWarehouseTimestampInFirestore ev wid fs) =
     (if wid = [] then db_calls fs
      else db_calls fs @ [UpdateDoc_warehouses wid [W_updatedAt_serverTimestamp]])"
  by (simp add: updateWarehouseTimestampInFirestore_def updateDoc_warehouses_def Let_def)

lemma itemFormSchema_Inr:
  "itemFormSchema raw = Inr data \<Longrightarrow> \<exists>n. f_quantity data = Finite n \<and> 0 \<le> n"
  by (auto simp: itemFormSchema_def Let_def split: js_number.splits if_splits)


lemma onAddItemSubmit_items:
  "db_items (snd (onAddItemSubmit ev p data fs)) = db_items fs \<or>
   db_items (snd (onAddItemSubmit ev p data fs)) =
     filter (\<lambda>i. item_id i \<noteq> autoId ev) (db_items fs) @
       [created_item ev (warehouseIdFromParams p) data]"
  by (simp add: onAddItemSubmit_def addDoc_items_def created_item_def Let_def)

lemma onStockAdjustmentSubmit_items:
  "db_items (snd (onStockAdjustmentSubmit ev p data fs)) = db_items fs \<or>
   (\<exists>item ty. itemForAdjustment p = Some item \<and> adjustmentType p = Some ty \<and>
      \<not> (ty = ADJ_CONSUME_STOCK \<and> quantity item < adjustmentQuantity data) \<and>
      db_items (snd (onStockAdjustmentSubmit ev p data fs)) =
        map (update_item ev (item_id item)
               [F_quantity (quantity item + quantityChange ty data),
                F_updatedAt_serverTimestamp,
                F_history_arrayUnion (adjustment_entry ev item ty data)]) (db_items fs))"
  by (auto simp: onStockAdjustmentSubmit_def updateDoc_items_def adjustment_entry_def
      quantityChange_def Let_def split: option.splits)


lemma itemForAdjustment_loaded [simp]:
  "itemForAdjustment (loadWarehouseAndItems fs wid p) = itemForAdjustment p"
  by (simp add: loadWarehouseAndItems_def split: option.splits)



lemma step_store_unchanged [simp]:
  "fst (step Reload s) = fst s"
  "fst (step (OpenStockAdjustmentDialog row ty) s) = fst s"
  "fst (step CloseStockAdjustmentDialog s) = fst s"
  by (cases s, simp)+

lemma step_AddItem_items:
  "db_items (fst (step (AddItem raw ev) (fs, p))) = db_items fs \<or>
   (\<exists>data. itemFormSchema raw = Inr data \<and>
      db_items (fst (step (AddItem raw ev) (fs, p))) =
        filter (\<lambda>i. item_id i \<noteq> autoId ev) (db_items fs) @
          [created_item ev (warehouseIdFromParams p) data])"
proof (cases "itemFormSchema raw")
  case (Inl issues)
  then show ?thesis by (simp add: submitItemForm_def)
next
  case (Inr data)
  with onAddItemSubmit_items[of ev p data fs] show ?thesis by (simp add: submitItemForm_def)
qed

lemma step_Submit_items:
  "db_items (fst (step (SubmitStockAdjustment raw ev) (fs, p))) = db_items fs \<or>
   (\<exists>item ty data. itemForAdjustment p = Some item \<and> adjustmentType p = Some ty \<and>
      stockAdjustmentFormSchema raw = Inr data \<and>
      \<not> (ty = ADJ_CONSUME_STOCK \<and> quantity item < adjustmentQuantity data) \<and>
      db_items (fst (step (SubmitStockAdjustment raw ev) (fs, p))) =
        map (update_item ev (item_id item)
               [F_quantity (quantity item + quantityChange ty data),
                F_updatedAt_serverTimestamp,
                F_history_arrayUnion (adjustment_entry ev item ty data)]) (db_items fs))"
proof (cases "isStockAdjustmentDialogOpen p")
  case False
  then show ?thesis by simp
next
  case True
  show ?thesis
  proof (cases "stockAdjustmentFormSchema raw")
    case (Inl issues)
    with True show ?thesis by (simp add: submitStockAdjustmentForm_def)
  next
    case (Inr data)
    with True have st: "fst (step (SubmitStockAdjustment raw ev) (fs, p)) =
        snd (onStockAdjustmentSubmit ev p data fs)"
      by (simp add: submitStockAdjustmentForm_def)
    from onStockAdjustmentSubmit_items[of ev p data fs] Inr st show ?thesis by auto
  qed
qed

lemma run_Cons: "run (a # acts) s = run acts (step a s)"
  by (simp add: run_def)

lemma update_item_adjust:
  "update_item ev iid [F_quantity q, F_updatedAt_serverTimestamp, F_history_arrayUnion e] i =
     (if item_id i = iid
      then i\<lparr>quantity := q, item_updatedAt := serverTime ev, history := arrayUnion (history i) e\<rparr>
      else i)"
  by (simp add: update_item_def)

lemma item_id_update_item [simp]: "item_id (update_item ev iid flds i) = item_id i"
proof -
  have "item_id (fold (apply_item_field ev) flds i) = item_id i" for i
  proof (induction flds arbitrary: i)
    case Nil
    show ?case by simp
  next
    case (Cons f flds)
    show ?case by (cases f) (simp_all add: Cons.IH)
  qed
  then show ?thesis by (simp add: update_item_def)
qed

subsection \<open>Non-negative stock\<close>



subsection \<open>Reconciliation\<close>

lemma replayLedger_append: "replayLedger (h @ [e]) = exactAdd (replayLedger h) (change e)"
  by (simp add: replayLedger_def)

lemma replayLedger_chronological: "replayLedger (chronological h) = replayLedger h"
proof -
  have "fold (\<lambda>e q. exactAdd q (change e)) (sort_key timestamp h) =
        fold (\<lambda>e q. exactAdd q (change e)) h"
    by (rule fold_multiset_equiv) (auto simp: exactAdd_right_commute)
  then show ?thesis by (simp add: replayLedger_def chronological_def)
qed

lemma safeLedger_append: "safeLedger (h @ [e]) \<longleftrightarrow> safeLedger h \<and> isSafeInteger (quantityAfter e)"
  by (auto simp: safeLedger_def)

lemma adjust_id_inj:
  "isTimeValue a \<Longrightarrow> isTimeValue b \<Longrightarrow> adjust_id a = adjust_id b \<Longrightarrow> a = b"
proof -
  assume a: "isTimeValue a" and b: "isTimeValue b" and e: "adjust_id a = adjust_id b"
  from a have a': "\<bar>a\<bar> < 10 ^ 21" by (simp add: isTimeValue_def)
  from b have b': "\<bar>b\<bar> < 10 ^ 21" by (simp add: isTimeValue_def)
  from e have "toString (Finite a) = toString (Finite b)" by (simp add: adjust_id_def)
  with a' b' show ?thesis by (rule toString_inj)
qed

lemma reconciled_mono: "reconciled U fs \<Longrightarrow> U \<subseteq> V \<Longrightarrow> reconciled V fs"
  unfolding reconciled_def by blast

lemma reconciled_same_items:
  "reconciled U fs \<Longrightarrow> db_items fs' = db_items fs \<Longrightarrow> reconciled U fs'"
  by (simp add: reconciled_def)

lemma reconciled_AddItem:
  assumes "reconciled U fs"
  shows "reconciled U (fst (step (AddItem raw ev) (fs, p)))"
proof -
  from step_AddItem_items[of raw ev fs p] show ?thesis
  proof
    assume "db_items (fst (step (AddItem raw ev) (fs, p))) = db_items fs"
    with assms show ?thesis by (simp add: reconciled_def)
  next
    assume "\<exists>data. itemFormSchema raw = Inr data \<and>
      db_items (fst (step (AddItem raw ev) (fs, p))) =
        filter (\<lambda>i. item_id i \<noteq> autoId ev) (db_items fs) @
          [created_item ev (warehouseIdFromParams p) data]"
    then obtain data where d: "itemFormSchema raw = Inr data" and
      e: "db_items (fst (step (AddItem raw ev) (fs, p))) =
        filter (\<lambda>i. item_id i \<noteq> autoId ev) (db_items fs) @
          [created_item ev (warehouseIdFromParams p) data]"
      by blast
    let ?c = "created_item ev (warehouseIdFromParams p) data"
    from itemFormSchema_Inr[OF d] obtain n where n: "f_quantity data = Finite n" by blast
    have c: "replayLedger (history ?c) = quantity ?c"
      "\<forall>e \<in> set (history ?c). entry_type e = CREATE_ITEM"
      "item_id ?c = autoId ev"
      by (simp_all add: created_item_def replayLedger_def n zero_number_def)
    from assms have d: "distinct (map item_id (db_items fs))" by (simp add: reconciled_def)
    have d': "distinct (map item_id (filter (\<lambda>i. item_id i \<noteq> autoId ev) (db_items fs) @ [?c]))"
      using d c(3) by (auto simp: distinct_map_filter)
    show ?thesis
      unfolding reconciled_def e using assms c d' by (auto simp: reconciled_def)
  qed
qed

lemma reconciled_Submit:
  assumes "reconciled U fs" and "dateNow ev \<notin> U" and "isTimeValue (dateNow ev)"
    and "\<forall>n \<in> U. isTimeValue n" and "dialog_current (fs, p)"
  shows "reconciled (insert (dateNow ev) U) (fst (step (SubmitStockAdjustment raw ev) (fs, p)))"
proof -
  let ?s = "step (SubmitStockAdjustment raw ev) (fs, p)"
  from step_Submit_items[of raw ev fs p] show ?thesis
  proof
    assume "db_items (fst ?s) = db_items fs"
    with assms(1) have "reconciled U (fst ?s)" by (simp add: reconciled_def)
    then show ?thesis by (rule reconciled_mono) auto
  next
    assume "\<exists>item ty data. itemForAdjustment p = Some item \<and> adjustmentType p = Some ty \<and>
      stockAdjustmentFormSchema raw = Inr data \<and>
      \<not> (ty = ADJ_CONSUME_STOCK \<and> quantity item < adjustmentQuantity data) \<and>
      db_items (fst ?s) =
        map (update_item ev (item_id item)
               [F_quantity (quantity item + quantityChange ty data),
                F_updatedAt_serverTimestamp,
                F_history_arrayUnion (adjustment_entry ev item ty data)]) (db_items fs)"
    then obtain item ty data where it: "itemForAdjustment p = Some item"
      and e: "db_items (fst ?s) =
        map (update_item ev (item_id item)
               [F_quantity (quantity item + quantityChange ty data),
                F_updatedAt_serverTimestamp,
                F_history_arrayUnion (adjustment_entry ev item ty data)]) (db_items fs)"
      by blast
    let ?e = "adjustment_entry ev item ty data"
    from assms(1) have d: "distinct (map item_id (db_items fs))" by (simp add: reconciled_def)
    from assms(5) it have cur: "quantity i = quantity item"
      if "i \<in> set (db_items fs)" "item_id i = item_id item" for i
      using that by (simp add: dialog_current_def)
    have ety: "entry_type ?e \<noteq> CREATE_ITEM" by (cases ty) (simp_all add: adjustment_entry_def)
    have eid: "entry_id ?e = adjust_id (dateNow ev)" by (simp add: adjustment_entry_def adjust_id_def)
    have fresh: "?e \<notin> set (history i)" if "i \<in> set (db_items fs)" for i
    proof
      assume m: "?e \<in> set (history i)"
      with assms(1) that ety obtain n where n: "n \<in> U" "entry_id ?e = adjust_id n"
        unfolding reconciled_def by blast
      from n(1) assms(4) have "isTimeValue n" by blast
      with eid n(2) assms(3) have "n = dateNow ev" by (metis adjust_id_inj)
      with \<open>n \<in> U\<close> assms(2) show False by simp
    qed
    have ch: "change ?e = quantityChange ty data"
      and qa: "quantityAfter ?e = quantity item + quantityChange ty data"
      by (simp_all add: adjustment_entry_def)
    have d': "distinct (map item_id (db_items (fst ?s)))"
      unfolding e using d by (simp add: comp_def)
    have inv: "(safeLedger (history j) \<longrightarrow> replayLedger (history j) = quantity j) \<and>
        (\<forall>h \<in> set (history j). entry_type h = CREATE_ITEM \<or>
           (\<exists>n \<in> insert (dateNow ev) U. entry_id h = adjust_id n))"
      if j: "j \<in> set (db_items (fst ?s))" for j
    proof -
      from j obtain i where i: "i \<in> set (db_items fs)"
        and ji: "j = update_item ev (item_id item)
                [F_quantity (quantity item + quantityChange ty data),
                 F_updatedAt_serverTimestamp, F_history_arrayUnion ?e] i"
        unfolding e by auto
      show ?thesis
      proof (cases "item_id i = item_id item")
        case False
        with ji have "j = i" by (simp add: update_item_adjust)
        with assms(1) i show ?thesis unfolding reconciled_def by blast
      next
        case True
        with ji fresh[OF i] have h: "history j = history i @ [?e]"
          and q: "quantity j = quantity item + quantityChange ty data"
          by (simp_all add: update_item_adjust arrayUnion_def)
        from cur[OF i True] have qi: "quantity i = quantity item" .
        have old: "\<forall>h \<in> set (history i). entry_type h = CREATE_ITEM \<or>
           (\<exists>n \<in> U. entry_id h = adjust_id n)"
          using assms(1) i unfolding reconciled_def by blast
        have rec: "replayLedger (history j) = quantity j" if sl: "safeLedger (history j)"
        proof -
          from sl h have s1: "safeLedger (history i)"
            and s2: "isSafeInteger (quantity item + quantityChange ty data)"
            by (simp_all add: safeLedger_append qa)
          from assms(1) i s1 have "replayLedger (history i) = quantity i"
            unfolding reconciled_def by blast
          with qi have "replayLedger (history j) = exactAdd (quantity item) (quantityChange ty data)"
            by (simp add: h replayLedger_append ch)
          with exactAdd_safe[OF s2] q show ?thesis by simp
        qed
        from h old eid have ids: "\<forall>h \<in> set (history j). entry_type h = CREATE_ITEM \<or>
           (\<exists>n \<in> insert (dateNow ev) U. entry_id h = adjust_id n)"
          by auto
        from rec ids show ?thesis by blast
      qed
    qed
    show ?thesis unfolding reconciled_def using d' inv by blast
  qed
qed

lemma run_reconciled:
  "reconciled U fs \<Longrightarrow> submits_current acts (fs, p) \<Longrightarrow> distinct (adjustment_clocks acts) \<Longrightarrow>
   \<forall>t \<in> set (adjustment_clocks acts). isTimeValue t \<Longrightarrow> \<forall>n \<in> U. isTimeValue n \<Longrightarrow>
   set (adjustment_clocks acts) \<inter> U = {} \<Longrightarrow>
   \<exists>V. reconciled V (fst (run acts (fs, p)))"
proof (induction acts arbitrary: U fs p)
  case Nil
  then show ?case by (auto simp: run_def)
next
  case (Cons a acts)
  obtain fs' p' where s': "step a (fs, p) = (fs', p')" by (cases "step a (fs, p)")
  have rn: "run (a # acts) (fs, p) = run acts (fs', p')" by (simp only: run_Cons s')
  have sc: "submits_current acts (fs', p')"
    using Cons.prems(2) s' by (cases a) (auto simp del: step.simps)
  have fs': "fs' = fst (step a (fs, p))" by (simp only: s' fst_conv)
  have cl: "distinct (adjustment_clocks acts)"
    "\<forall>t \<in> set (adjustment_clocks acts). isTimeValue t"
    using Cons.prems(3,4) by (cases a; simp)+
  have "\<exists>U'. reconciled U' fs' \<and> (\<forall>n \<in> U'. isTimeValue n) \<and>
      set (adjustment_clocks acts) \<inter> U' = {}"
  proof (cases a)
    case Reload
    with fs' have "fs' = fs" by simp
    with Cons.prems Reload show ?thesis by auto
  next
    case (AddItem raw ev)
    from reconciled_AddItem[OF Cons.prems(1), of raw ev p] fs' AddItem
    have "reconciled U fs'" by simp
    with Cons.prems AddItem show ?thesis by auto
  next
    case (OpenStockAdjustmentDialog row ty)
    with fs' have "fs' = fs" by simp
    with Cons.prems OpenStockAdjustmentDialog show ?thesis by auto
  next
    case CloseStockAdjustmentDialog
    with fs' have "fs' = fs" by simp
    with Cons.prems CloseStockAdjustmentDialog show ?thesis by auto
  next
    case (SubmitStockAdjustment raw ev)
    from Cons.prems SubmitStockAdjustment have nU: "dateNow ev \<notin> U"
      and tv: "isTimeValue (dateNow ev)" and cur: "dialog_current (fs, p)"
      by auto
    from reconciled_Submit[OF Cons.prems(1) nU tv Cons.prems(5) cur, of raw] fs'
      SubmitStockAdjustment
    have r: "reconciled (insert (dateNow ev) U) fs'" by simp
    from Cons.prems SubmitStockAdjustment
    have a: "set (adjustment_clocks acts) \<inter> insert (dateNow ev) U = {}" by auto
    from Cons.prems(5) tv have b: "\<forall>n \<in> insert (dateNow ev) U. isTimeValue n" by simp
    from r a b show ?thesis by blast
  qed
  then obtain U' where u: "reconciled U' fs'" "\<forall>n \<in> U'. isTimeValue n"
    "set (adjustment_clocks acts) \<inter> U' = {}" by blast
  from Cons.IH[OF u(1) sc cl u(2,3)] show ?case by (simp only: rn)
qed

lemma reconciled_empty: "db_items fs = [] \<Longrightarrow> reconciled {} fs"
  by (simp add: reconciled_def)

subsection \<open>Flattening and filtering\<close>

lemma truncate_widen: "HistoryEntry.truncate (widen item wh e) = e"
  by (simp add: widen_def HistoryEntry.truncate_def)

lemma flatten_item_cases:
  "flatten_item whs item =
     (if item_warehouseId item \<in> wh_id ` set whs
      then map (widen item (the (find (\<lambda>wh. wh_id wh = item_warehouseId item) whs))) (history item)
      else [])"
proof (cases "find (\<lambda>wh. wh_id wh = item_warehouseId item) whs")
  case None
  then have "item_warehouseId item \<notin> wh_id ` set whs" by (auto simp: find_None_iff)
  with None show ?thesis by (simp add: flatten_item_def)
next
  case (Some wh)
  then have "wh \<in> set whs" "wh_id wh = item_warehouseId item" by (auto simp: find_Some_iff)
  then have "item_warehouseId item \<in> wh_id ` set whs" by force
  with Some show ?thesis by (simp add: flatten_item_def)
qed

lemma length_concat_sum: "length (concat xss) = sum_list (map length xss)"
  by (induction xss) simp_all





subsection \<open>Archiving a warehouse\<close>

lemma update_item_archive:
  "update_item ev iid [F_isArchived True, F_updatedAt_serverTimestamp] i =
     (if item_id i = iid then archive_item ev i else i)"
  by (simp add: update_item_def archive_item_def)

lemma archive_item_simps [simp]:
  "item_id (archive_item ev i) = item_id i"
  "item_warehouseId (archive_item ev i) = item_warehouseId i"
  "item_isArchived (archive_item ev i)"
  "archive_item ev (archive_item ev i) = archive_item ev i"
  by (simp_all add: archive_item_def)

lemma fold_batch_archive:
  "fold (\<lambda>u. map (update_item ev (fst u) (snd u)))
        (map (\<lambda>d. (item_id d, [F_isArchived True, F_updatedAt_serverTimestamp])) ds) xs =
   map (\<lambda>i. if item_id i \<in> item_id ` set ds then archive_item ev i else i) xs"
proof (induction ds arbitrary: xs)
  case Nil
  show ?case by simp
next
  case (Cons d ds)
  have "fold (\<lambda>u. map (update_item ev (fst u) (snd u)))
        (map (\<lambda>d. (item_id d, [F_isArchived True, F_updatedAt_serverTimestamp])) (d # ds)) xs =
      map (\<lambda>i. if item_id i \<in> item_id ` set ds then archive_item ev i else i)
        (map (\<lambda>i. if item_id i = item_id d then archive_item ev i else i) xs)"
    by (simp add: Cons.IH update_item_archive[abs_def])
  also have "\<dots> = map (\<lambda>i. if item_id i \<in> item_id ` set (d # ds) then archive_item ev i else i) xs"
    by (auto simp: comp_def)
  finally show ?case .
qed

lemma distinct_same_id:
  "distinct (map item_id xs) \<Longrightarrow> i \<in> set xs \<Longrightarrow> j \<in> set xs \<Longrightarrow> item_id i = item_id j \<Longrightarrow> i = j"
  by (metis distinct_map inj_onD)

lemma handleArchiveWarehouse_cases:
  assumes "handleArchiveWarehouse ev (Some w) fs = (out, fs')"
  shows "if warehousesWriteOk ev \<and> wh_id w \<in> wh_id ` set (db_warehouses fs)
         then db_warehouses fs' =
                map (update_warehouse ev (wh_id w) [W_isArchived True, W_updatedAt_serverTimestamp])
                  (db_warehouses fs) \<and>
              (if itemsQueryOk ev \<and> itemsWriteOk ev
               then out = ToastOk ''Warehouse Archived'' \<and>
                    db_items fs' =
                      map (\<lambda>i. if item_id i \<in> item_id `
                                   set (filter (\<lambda>i. item_warehouseId i = wh_id w) (db_items fs))
                                then archive_item ev i else i) (db_items fs) \<and>
                    db_calls fs' = db_calls fs @
                      [UpdateDoc_warehouses (wh_id w)
                         [W_isArchived True, W_updatedAt_serverTimestamp],
                       BatchCommit_items
                         (map (\<lambda>d. (item_id d, [F_isArchived True, F_updatedAt_serverTimestamp]))
                            (filter (\<lambda>i. item_warehouseId i = wh_id w) (db_items fs)))]
               else out = ToastError ''Error'' \<and> db_items fs' = db_items fs)
         else out = ToastError ''Error'' \<and> db_warehouses fs' = db_warehouses fs \<and>
              db_items fs' = db_items fs"
  using assms
  by (auto simp: handleArchiveWarehouse_def updateDoc_warehouses_def batchCommit_items_def
      Let_def fold_batch_archive split: if_splits)

subsection \<open>Reprinting\<close>



subsection \<open>Evaluating the examples\<close>

lemmas ex_defs = ex_page0_def ex_fs0_def ex_fs1_def ex_env_def ex_warehouse_def ex_item_def
  ex_loaded_def ex_page_def created_item_def initialState_def

lemmas handler_defs = submitItemForm_def itemFormSchema_def isInteger_def
  onAddItemSubmit_def loadWarehouseAndItems_def addDoc_items_def
  updateWarehouseTimestampInFirestore_def updateDoc_warehouses_def update_warehouse_def Let_def
  toStringNat_def digits.simps digit_def submitStockAdjustmentForm_def
  stockAdjustmentFormSchema_def onStockAdjustmentSubmit_def handleOpenStockAdjustmentDialog_def
  afterStockAdjustment_def updateDoc_items_def update_item_def arrayUnion_def run_def or_else_def
  fl_small zero_number_def

lemma ex_run_items:
  "db_items (fst (run ex_acts (ex_fs0, ex_page0))) =
     [\<lparr>item_id = ''item-1'', item_warehouseId = ''w1'', item_name = ''bolt'',
        quantity = Finite 12, location = Some [], item_createdAt = 1002, item_updatedAt = 3002,
        history =
          [\<lparr>entry_id = ''1001-hist-create'', entry_type = CREATE_ITEM,
             change = Finite 10, quantityBefore = Finite 0, quantityAfter = Finite 10,
             comment = Some ''Initial item creation'', timestamp = 1000\<rparr>,
           \<lparr>entry_id = ''2001-hist-adjust'', entry_type = CONSUME_STOCK,
             change = Finite (- 3), quantityBefore = Finite 10, quantityAfter = Finite 7,
             comment = Some ''Stock consumed'', timestamp = 2000\<rparr>,
           \<lparr>entry_id = ''3001-hist-adjust'', entry_type = ADD_STOCK,
             change = Finite 5, quantityBefore = Finite 7, quantityAfter = Finite 12,
             comment = Some ''delivery'', timestamp = 3000\<rparr>],
        item_isArchived = False, item_ownerId = None\<rparr>]"
  by (simp add: ex_acts_def ex_defs handler_defs)

lemma ex_run_warehouses:
  "db_warehouses (fst (run ex_acts (ex_fs0, ex_page0))) = [ex_warehouse\<lparr>wh_updatedAt := 3002\<rparr>]"
  by (simp add: ex_acts_def ex_defs handler_defs)


section \<open>The claims\<close>




text \<open>
  Claim C2, with the conditions it needs. Start from a store without items and run any
  session in which, each time the adjustment form is submitted, the dialog's copy of the
  item has the quantity that the store holds for it (as it has when the dialog was opened
  on a list loaded after the last write to the item), and in which the adjustments are
  submitted at pairwise distinct \<open>Date.now()\<close> readings (so that every entry is new to the
  ledger and \<open>arrayUnion\<close> appends it). Then for every item in the store whose ledger
  records only safe integers as resulting quantities (up to \<open>2^53 - 1\<close>, where the
  program's addition is exact), replaying the ledger from 0, in chronological order as
  well as in stored order, and summing the \<open>change\<close> values gives the stored quantity.
\<close>

theorem ledger_replay_reconciles:
  assumes "db_items fs0 = []"
    and "submits_current acts (fs0, p0)"
    and "distinct (adjustment_clocks acts)"
    and "\<forall>t \<in> set (adjustment_clocks acts). isTimeValue t"
  shows "\<forall>item \<in> set (db_items (fst (run acts (fs0, p0)))).
           safeLedger (history item) \<longrightarrow>
           replayLedger (chronological (history item)) = quantity item \<and>
           replayLedger (history item) = quantity item"
proof -
  from run_reconciled[OF reconciled_empty[OF assms(1)] assms(2,3,4)]
  obtain V where "reconciled V (fst (run acts (fs0, p0)))" by auto
  then show ?thesis by (simp add: reconciled_def replayLedger_chronological)
qed

theorem ledger_replay_reconciles_witness:
  "db_items ex_fs0 = [] \<and> submits_current ex_acts (ex_fs0, ex_page0) \<and>
   distinct (adjustment_clocks ex_acts) \<and>
   adjustment_clocks ex_acts = [2001, 3001] \<and> isTimeValue 2001 \<and> isTimeValue 3001 \<and>
   length (db_items (fst (run ex_acts (ex_fs0, ex_page0)))) = 1 \<and>
   map change (history (hd (db_items (fst (run ex_acts (ex_fs0, ex_page0)))))) =
     [Finite 10, Finite (- 3), Finite 5] \<and>
   safeLedger (history (hd (db_items (fst (run ex_acts (ex_fs0, ex_page0)))))) \<and>
   quantity (hd (db_items (fst (run ex_acts (ex_fs0, ex_page0))))) = Finite 12 \<and>
   replayLedger (chronological (history (hd (db_items (fst (run ex_acts (ex_fs0, ex_page0))))))) =
     Finite 12 \<and>
   replayLedger (history (hd (db_items (fst (run ex_acts (ex_fs0, ex_page0)))))) = Finite 12"
proof -
  let ?items = "db_items (fst (run ex_acts (ex_fs0, ex_page0)))"
  have h1: "db_items ex_fs0 = []" by (simp add: ex_fs0_def)
  have h2: "submits_current ex_acts (ex_fs0, ex_page0)"
    by (simp add: ex_acts_def dialog_current_def ex_defs handler_defs)
  have cl: "adjustment_clocks ex_acts = [2001, 3001]" by (simp add: ex_acts_def ex_env_def)
  have h3: "distinct (adjustment_clocks ex_acts)" by (simp add: cl)
  have tv: "isTimeValue 2001" "isTimeValue 3001" by (simp_all add: isTimeValue_def)
  then have h4: "\<forall>t \<in> set (adjustment_clocks ex_acts). isTimeValue t" by (simp add: cl)
  note r = ex_run_items
  have l: "length ?items = 1" by (simp add: r)
  have c: "map change (history (hd ?items)) = [Finite 10, Finite (- 3), Finite 5]"
    by (simp add: r)
  have q: "quantity (hd ?items) = Finite 12" by (simp add: r)
  have sl: "safeLedger (history (hd ?items))" by (simp add: r safeLedger_def isSafeInteger_def)
  from l have m: "hd ?items \<in> set ?items" by (cases ?items) auto
  from ledger_replay_reconciles[OF h1 h2 h3 h4] m sl
  have "replayLedger (chronological (history (hd ?items))) = quantity (hd ?items) \<and>
        replayLedger (history (hd ?items)) = quantity (hd ?items)"
    by blast
  with h1 h2 h3 cl tv l c sl q show ?thesis by simp
qed

text \<open>
  Claim C2 does not hold for every sequence of mutations: nothing makes a handler work on
  the item as it is stored. In the session below an item is created with 10, the page is
  reloaded, 5 are added, and the consume dialog is opened on the list as it still shows the
  item (the handler has started the reload but does not wait for it) and submitted with 3.
  The second adjustment is computed from the quantity 10 of the dialog's copy: the stored
  quantity becomes 7, while the ledger holds the changes 10, 5 and -3 and replays to 12.
\<close>

theorem ledger_replay_stale_page_counterexample:
  "db_items ex_fs0 = [] \<and>
   distinct (adjustment_clocks ex_stale_acts) \<and>
   length (db_items (fst (run ex_stale_acts (ex_fs0, ex_page0)))) = 1 \<and>
   map change (history (hd (db_items (fst (run ex_stale_acts (ex_fs0, ex_page0)))))) =
     [Finite 10, Finite 5, Finite (- 3)] \<and>
   quantity (hd (db_items (fst (run ex_stale_acts (ex_fs0, ex_page0))))) = Finite 7 \<and>
   replayLedger (history (hd (db_items (fst (run ex_stale_acts (ex_fs0, ex_page0)))))) =
     Finite 12 \<and>
   replayLedger (chronological
     (history (hd (db_items (fst (run ex_stale_acts (ex_fs0, ex_page0))))))) = Finite 12"
proof -
  have i: "db_items (fst (run ex_stale_acts (ex_fs0, ex_page0))) =
     [\<lparr>item_id = ''item-1'', item_warehouseId = ''w1'', item_name = ''bolt'',
        quantity = Finite 7, location = Some [], item_createdAt = 1002, item_updatedAt = 3002,
        history =
          [\<lparr>entry_id = ''1001-hist-create'', entry_type = CREATE_ITEM,
             change = Finite 10, quantityBefore = Finite 0, quantityAfter = Finite 10,
             comment = Some ''Initial item creation'', timestamp = 1000\<rparr>,
           \<lparr>entry_id = ''2001-hist-adjust'', entry_type = ADD_STOCK,
             change = Finite 5, quantityBefore = Finite 10, quantityAfter = Finite 15,
             comment = Some ''Stock added'', timestamp = 2000\<rparr>,
           \<lparr>entry_id = ''3001-hist-adjust'', entry_type = CONSUME_STOCK,
             change = Finite (- 3), quantityBefore = Finite 10, quantityAfter = Finite 7,
             comment = Some ''Stock consumed'', timestamp = 3000\<rparr>],
        item_isArchived = False, item_ownerId = None\<rparr>]"
    by (simp add: ex_stale_acts_def ex_defs handler_defs)
  show ?thesis
    by (simp add: i replayLedger_chronological)
       (simp add: replayLedger_def zero_number_def ex_stale_acts_def ex_defs)
qed

text \<open>
  Claim C3, for what the handler computes. A stock adjustment that succeeds from a dialog
  holding the item with quantity \<open>q\<close> writes one HistoryEntry \<open>e\<close> with \<open>quantityBefore = q\<close>,
  \<open>change = delta\<close> and \<open>quantityAfter = q + delta\<close> in the program's addition, which is the
  exact sum \<open>quantityBefore + change\<close> whenever the result is a safe integer. The id of \<open>e\<close>
  is made from the \<open>Date.now()\<close> reading alone (no other reading gives the same id) and its
  timestamp is the current \<open>Date\<close>. The handler sends exactly one request to the item
  document, an \<open>updateDoc\<close> that carries the new quantity and the \<open>arrayUnion\<close> of the entry
  together; the only other request refreshes the warehouse's \<open>updatedAt\<close>. The document
  then holds the new quantity, and its ledger with \<open>e\<close> appended whenever no stored entry
  has the id of \<open>e\<close>.
\<close>

theorem stock_adjustment_single_update:
  fixes item :: Item and ty :: AdjustmentType and data :: StockAdjustmentFormValues
  defines "q \<equiv> quantity item"
    and "delta \<equiv> (if ty = ADJ_ADD_STOCK then adjustmentQuantity data
                   else - adjustmentQuantity data)"
  assumes "itemForAdjustment p = Some item"
    and "adjustmentType p = Some ty"
    and "fst (onStockAdjustmentSubmit ev p data fs) = ToastOk ''Stock Updated''"
  shows "\<exists>e. quantityBefore e = q \<and> change e = delta \<and> quantityAfter e = q + delta \<and>
             (isSafeInteger (q + delta) \<longrightarrow>
                quantityAfter e = exactAdd (quantityBefore e) (change e)) \<and>
             entry_type e = type_of_adjustment ty \<and>
             entry_id e = toString (Finite (dateNow ev)) @ ''-hist-adjust'' \<and>
             timestamp e = newDate ev \<and>
             (\<forall>ev'::env. isTimeValue (dateNow ev) \<longrightarrow> isTimeValue (dateNow ev') \<longrightarrow>
                dateNow ev' \<noteq> dateNow ev \<longrightarrow>
                entry_id e \<noteq> toString (Finite (dateNow ev')) @ ''-hist-adjust'') \<and>
             db_calls (snd (onStockAdjustmentSubmit ev p data fs)) =
               db_calls fs @
               [UpdateDoc_items (item_id item)
                  [F_quantity (q + delta), F_updatedAt_serverTimestamp, F_history_arrayUnion e],
                UpdateDoc_warehouses (warehouseIdFromParams p) [W_updatedAt_serverTimestamp]] \<and>
             db_items (snd (onStockAdjustmentSubmit ev p data fs)) =
               map (\<lambda>i. if item_id i = item_id item
                         then i\<lparr>quantity := q + delta, item_updatedAt := serverTime ev,
                                history := arrayUnion (history i) e\<rparr>
                         else i) (db_items fs) \<and>
             (\<forall>i \<in> set (db_items fs).
                (\<forall>h \<in> set (history i). entry_id h \<noteq> entry_id e) \<longrightarrow>
                arrayUnion (history i) e = history i @ [e])"
proof -
  let ?e = "adjustment_entry ev item ty data"
  have d: "delta = quantityChange ty data" by (simp add: delta_def quantityChange_def)
  from assms(3-5) have w: "warehouseIdFromParams p \<noteq> []"
    and g: "\<not> (ty = ADJ_CONSUME_STOCK \<and> quantity item < adjustmentQuantity data)"
    and ok: "itemsWriteOk ev \<and> item_id item \<in> set (map item_id (db_items fs))"
    by (auto simp: onStockAdjustmentSubmit_def updateDoc_items_def Let_def split: if_splits)
  have fresh: "\<forall>ev'::env. isTimeValue (dateNow ev) \<longrightarrow> isTimeValue (dateNow ev') \<longrightarrow>
      dateNow ev' \<noteq> dateNow ev \<longrightarrow>
      entry_id ?e \<noteq> toString (Finite (dateNow ev')) @ ''-hist-adjust''"
  proof (intro allI impI)
    fix ev' :: env
    assume tv: "isTimeValue (dateNow ev)" "isTimeValue (dateNow ev')"
      and ne: "dateNow ev' \<noteq> dateNow ev"
    show "entry_id ?e \<noteq> toString (Finite (dateNow ev')) @ ''-hist-adjust''"
    proof
      assume "entry_id ?e = toString (Finite (dateNow ev')) @ ''-hist-adjust''"
      then have "adjust_id (dateNow ev) = adjust_id (dateNow ev')"
        by (simp only: adjustment_entry_def adjust_id_def HistoryEntry.simps)
      from adjust_id_inj[OF tv this] ne show False by simp
    qed
  qed
  have calls: "db_calls (snd (onStockAdjustmentSubmit ev p data fs)) =
      db_calls fs @
      [UpdateDoc_items (item_id item)
         [F_quantity (q + delta), F_updatedAt_serverTimestamp, F_history_arrayUnion ?e],
       UpdateDoc_warehouses (warehouseIdFromParams p) [W_updatedAt_serverTimestamp]]"
    using assms(3,4) w g ok
    by (auto simp: onStockAdjustmentSubmit_def updateDoc_items_def Let_def
        db_calls_updateWarehouseTimestamp adjustment_entry_def quantityChange_def q_def delta_def)
  have items: "db_items (snd (onStockAdjustmentSubmit ev p data fs)) =
      map (\<lambda>i. if item_id i = item_id item
                then i\<lparr>quantity := q + delta, item_updatedAt := serverTime ev,
                       history := arrayUnion (history i) ?e\<rparr>
                else i) (db_items fs)"
    using assms(3,4) w g ok
    by (auto simp: onStockAdjustmentSubmit_def updateDoc_items_def Let_def update_item_def
        adjustment_entry_def quantityChange_def q_def delta_def)
  have app: "\<forall>i \<in> set (db_items fs).
      (\<forall>h \<in> set (history i). entry_id h \<noteq> entry_id ?e) \<longrightarrow>
      arrayUnion (history i) ?e = history i @ [?e]"
    by (auto simp: arrayUnion_def)
  have flds: "quantityBefore ?e = q" "quantityAfter ?e = q + delta" "change ?e = delta"
    "entry_type ?e = type_of_adjustment ty"
    "entry_id ?e = toString (Finite (dateNow ev)) @ ''-hist-adjust''" "timestamp ?e = newDate ev"
    by (simp_all add: adjustment_entry_def q_def d)
  have ex: "isSafeInteger (q + delta) \<longrightarrow>
      quantityAfter ?e = exactAdd (quantityBefore ?e) (change ?e)"
    by (simp add: flds exactAdd_safe)
  show ?thesis
    apply (rule exI[of _ ?e])
    using flds ex fresh calls items app by simp
qed

theorem stock_adjustment_single_update_witness:
  "itemForAdjustment (ex_page 10 ADJ_CONSUME_STOCK) = Some (ex_item 10) \<and>
   adjustmentType (ex_page 10 ADJ_CONSUME_STOCK) = Some ADJ_CONSUME_STOCK \<and>
   fst (onStockAdjustmentSubmit (ex_env 2000) (ex_page 10 ADJ_CONSUME_STOCK)
          \<lparr>adjustmentQuantity = Finite 3, f_comment = None\<rparr> (ex_fs1 10)) =
     ToastOk ''Stock Updated'' \<and>
   (\<exists>e. quantityBefore e = Finite 10 \<and> change e = Finite (- 3) \<and> quantityAfter e = Finite 7 \<and>
        quantityAfter e = exactAdd (quantityBefore e) (change e) \<and>
        entry_type e = CONSUME_STOCK \<and> entry_id e = ''2001-hist-adjust'' \<and> timestamp e = 2000 \<and>
        entry_id e \<noteq> toString (Finite (dateNow (ex_env 3000))) @ ''-hist-adjust'' \<and>
        db_calls (snd (onStockAdjustmentSubmit (ex_env 2000) (ex_page 10 ADJ_CONSUME_STOCK)
                        \<lparr>adjustmentQuantity = Finite 3, f_comment = None\<rparr> (ex_fs1 10))) =
          [UpdateDoc_items ''item-1''
             [F_quantity (Finite 7), F_updatedAt_serverTimestamp, F_history_arrayUnion e],
           UpdateDoc_warehouses ''w1'' [W_updatedAt_serverTimestamp]] \<and>
        db_items (snd (onStockAdjustmentSubmit (ex_env 2000) (ex_page 10 ADJ_CONSUME_STOCK)
                        \<lparr>adjustmentQuantity = Finite 3, f_comment = None\<rparr> (ex_fs1 10))) =
          [(ex_item 10)\<lparr>quantity := Finite 7, item_updatedAt := 2002,
                         history := history (ex_item 10) @ [e]\<rparr>])"
proof -
  let ?p = "ex_page 10 ADJ_CONSUME_STOCK"
  let ?d = "\<lparr>adjustmentQuantity = Finite 3, f_comment = None\<rparr>"
  have h1: "itemForAdjustment ?p = Some (ex_item 10)"
    and h2: "adjustmentType ?p = Some ADJ_CONSUME_STOCK"
    by (simp_all add: ex_page_def handleOpenStockAdjustmentDialog_def)
  have h3: "fst (onStockAdjustmentSubmit (ex_env 2000) ?p ?d (ex_fs1 10)) =
      ToastOk ''Stock Updated''"
    by (simp add: ex_defs handler_defs)
  have w: "warehouseIdFromParams ?p = ''w1''" by (simp add: ex_defs handler_defs)
  have i: "item_id (ex_item 10) = ''item-1''" "quantity (ex_item 10) = Finite 10"
    "dateNow (ex_env 2000) = 2001" "dateNow (ex_env 3000) = 3001"
    "newDate (ex_env 2000) = 2000" "serverTime (ex_env 2000) = 2002"
    "db_items (ex_fs1 10) = [ex_item 10]" "db_calls (ex_fs1 10) = []"
    "map entry_id (history (ex_item 10)) = [''1001-hist-create'']"
    by (simp_all add: ex_defs toStringNat_def digits.simps digit_def)
  have s: "toString (Finite 2001) = ''2001''"
    by (simp add: toStringNat_def digits.simps digit_def)
  have s7: "isSafeInteger (Finite 7)" by (simp add: isSafeInteger_def)
  have tv: "isTimeValue 2001" "isTimeValue 3001" by (simp_all add: isTimeValue_def)
  let ?r = "snd (onStockAdjustmentSubmit (ex_env 2000) ?p ?d (ex_fs1 10))"
  let ?A = "\<lambda>e. quantityBefore e = Finite 10 \<and> change e = Finite (- 3) \<and>
      quantityAfter e = Finite 7 \<and>
      quantityAfter e = exactAdd (quantityBefore e) (change e) \<and>
      entry_type e = CONSUME_STOCK \<and> entry_id e = ''2001-hist-adjust'' \<and> timestamp e = 2000 \<and>
      (\<forall>ev'::env. isTimeValue (dateNow ev') \<longrightarrow> dateNow ev' \<noteq> 2001 \<longrightarrow>
         entry_id e \<noteq> toString (Finite (dateNow ev')) @ ''-hist-adjust'') \<and>
      db_calls ?r =
        [UpdateDoc_items ''item-1''
           [F_quantity (Finite 7), F_updatedAt_serverTimestamp, F_history_arrayUnion e],
         UpdateDoc_warehouses ''w1'' [W_updatedAt_serverTimestamp]] \<and>
      db_items ?r =
        [(ex_item 10)\<lparr>quantity := Finite 7, item_updatedAt := 2002,
                       history := arrayUnion (history (ex_item 10)) e\<rparr>] \<and>
      ((\<forall>h \<in> set (history (ex_item 10)). entry_id h \<noteq> entry_id e) \<longrightarrow>
         arrayUnion (history (ex_item 10)) e = history (ex_item 10) @ [e])"
  from stock_adjustment_single_update[OF h1 h2 h3]
  have "\<exists>e. ?A e" by (simp add: i w s fl_small s7 tv del: toString.simps)
  then obtain e where a: "?A e" by blast
  from a have id: "entry_id e = ''2001-hist-adjust''" by simp
  have nf: "\<forall>h \<in> set (history (ex_item 10)). entry_id h \<noteq> entry_id e"
    by (simp add: id ex_defs toStringNat_def digits.simps digit_def)
  with a have app: "arrayUnion (history (ex_item 10)) e = history (ex_item 10) @ [e]" by blast
  from a have al: "\<forall>ev'::env. isTimeValue (dateNow ev') \<longrightarrow> dateNow ev' \<noteq> 2001 \<longrightarrow>
      entry_id e \<noteq> toString (Finite (dateNow ev')) @ ''-hist-adjust''" by blast
  have "dateNow (ex_env 3000) \<noteq> 2001" "isTimeValue (dateNow (ex_env 3000))"
    by (simp_all add: i tv)
  with al have fr: "entry_id e \<noteq> toString (Finite (dateNow (ex_env 3000))) @ ''-hist-adjust''"
    by blast
  from a app fr h1 h2 h3 show ?thesis by auto
qed

text \<open>
  Claim C3 does not hold as it is worded: \<open>quantityAfter\<close> is a sum of doubles. In the
  session below an item is created with \<open>2^53 = 9007199254740992\<close> pieces, the page is
  reloaded and the add dialog is opened on the item, so that the dialog holds the current
  quantity. Adding 1 succeeds and writes an entry with \<open>quantityBefore = 2^53\<close>,
  \<open>change = 1\<close> and \<open>quantityAfter = 2^53\<close>, and the stored quantity stays \<open>2^53\<close>:
  \<open>quantityAfter\<close> is not \<open>quantityBefore + change\<close>. (The two other parts of the claim
  that fail are seen in the theorems above: the quantity the entry starts from is the
  dialog's copy, and the id is as fresh as the clock reading.)
\<close>

theorem stock_adjustment_rounding_counterexample:
  "map quantity (db_items (fst (run ex_large_acts (ex_fs0, ex_page0)))) =
     [Finite 9007199254740992] \<and>
   map_option quantity (itemForAdjustment (snd (run ex_large_acts (ex_fs0, ex_page0)))) =
     Some (Finite 9007199254740992) \<and>
   fst (onStockAdjustmentSubmit (ex_env 2000) (snd (run ex_large_acts (ex_fs0, ex_page0)))
          \<lparr>adjustmentQuantity = Finite 1, f_comment = None\<rparr>
          (fst (run ex_large_acts (ex_fs0, ex_page0)))) = ToastOk ''Stock Updated'' \<and>
   map (\<lambda>i. (quantity i, map (\<lambda>e. (quantityBefore e, change e, quantityAfter e)) (history i)))
     (db_items (snd (onStockAdjustmentSubmit (ex_env 2000)
        (snd (run ex_large_acts (ex_fs0, ex_page0)))
        \<lparr>adjustmentQuantity = Finite 1, f_comment = None\<rparr>
        (fst (run ex_large_acts (ex_fs0, ex_page0)))))) =
     [(Finite 9007199254740992,
       [(Finite 0, Finite 9007199254740992, Finite 9007199254740992),
        (Finite 9007199254740992, Finite 1, Finite 9007199254740992)])] \<and>
   exactAdd (Finite 9007199254740992) (Finite 1) = Finite 9007199254740993"
proof -
  have "ulp 9007199254740993 = 2" by (simp add: ulp.simps)
  then have "roundTiesToEven 9007199254740993 = 9007199254740992"
    by (simp add: roundTiesToEven_def Let_def)
  then have r: "fl 9007199254740993 = Finite 9007199254740992" by (simp add: fl_def Let_def)
  show ?thesis
    by (simp add: ex_large_acts_def ex_defs handler_defs r)
qed

text \<open>
  Claim C4. An item created with initial quantity \<open>N\<close> is stored with quantity \<open>N\<close> and
  a ledger of exactly one entry, of type CREATE_ITEM, with \<open>quantityBefore = 0\<close>,
  \<open>quantityAfter = N\<close> and \<open>change = N\<close>.
\<close>

theorem item_creation_ledger:
  assumes "fst (onAddItemSubmit ev p data fs) = ToastOk ''Item Added''"
  shows "\<exists>item e. filter (\<lambda>i. item_id i = autoId ev) (db_items (snd (onAddItemSubmit ev p data fs)))
                     = [item] \<and>
                   quantity item = f_quantity data \<and>
                   history item = [e] \<and>
                   entry_type e = CREATE_ITEM \<and>
                   quantityBefore e = 0 \<and>
                   quantityAfter e = f_quantity data \<and>
                   change e = f_quantity data"
proof -
  from assms have ok: "warehouseIdFromParams p \<noteq> []" "warehouse p \<noteq> None" "itemsWriteOk ev"
    by (auto simp: onAddItemSubmit_def addDoc_items_def Let_def split: if_splits)
  then have items: "db_items (snd (onAddItemSubmit ev p data fs)) =
      filter (\<lambda>i. item_id i \<noteq> autoId ev) (db_items fs) @
        [created_item ev (warehouseIdFromParams p) data]"
    by (auto simp: onAddItemSubmit_def addDoc_items_def created_item_def Let_def)
  have f: "filter (\<lambda>i. item_id i = autoId ev) (filter (\<lambda>i. item_id i \<noteq> autoId ev) (db_items fs)) = []"
    by (simp add: filter_empty_conv)
  have "filter (\<lambda>i. item_id i = autoId ev) (db_items (snd (onAddItemSubmit ev p data fs))) =
      [created_item ev (warehouseIdFromParams p) data]"
    unfolding items by (simp add: f) (simp add: created_item_def)
  then show ?thesis by (simp add: created_item_def)
qed

theorem item_creation_ledger_witness:
  "fst (onAddItemSubmit (ex_env 1000) (loadWarehouseAndItems ex_fs0 ''w1'' ex_page0)
          \<lparr>f_name = ''bolt'', f_quantity = Finite 10, f_location = None\<rparr> ex_fs0) =
     ToastOk ''Item Added'' \<and>
   (\<exists>item e.
      db_items (snd (onAddItemSubmit (ex_env 1000) (loadWarehouseAndItems ex_fs0 ''w1'' ex_page0)
                       \<lparr>f_name = ''bolt'', f_quantity = Finite 10, f_location = None\<rparr> ex_fs0)) =
        [item] \<and>
      item_id item = ''item-1'' \<and> quantity item = Finite 10 \<and> history item = [e] \<and>
      entry_type e = CREATE_ITEM \<and> quantityBefore e = 0 \<and> quantityAfter e = Finite 10 \<and>
      change e = Finite 10)"
proof -
  let ?data = "\<lparr>f_name = ''bolt'', f_quantity = Finite 10, f_location = None\<rparr>"
  let ?r = "snd (onAddItemSubmit (ex_env 1000) (loadWarehouseAndItems ex_fs0 ''w1'' ex_page0) ?data ex_fs0)"
  have h: "fst (onAddItemSubmit (ex_env 1000) (loadWarehouseAndItems ex_fs0 ''w1'' ex_page0) ?data ex_fs0) =
      ToastOk ''Item Added''"
    by (simp add: ex_defs handler_defs)
  have ids: "map item_id (db_items ?r) = [''item-1'']" by (simp add: ex_defs handler_defs)
  from item_creation_ledger[OF h] obtain item e where
    a: "filter (\<lambda>i. item_id i = ''item-1'') (db_items ?r) = [item]"
      "quantity item = Finite 10" "history item = [e]" "entry_type e = CREATE_ITEM"
      "quantityBefore e = 0" "quantityAfter e = Finite 10" "change e = Finite 10"
    by (auto simp: ex_env_def)
  from ids obtain x where x: "db_items ?r = [x]" "item_id x = ''item-1''" by auto
  with a(1) have "db_items ?r = [item]" "item_id item = ''item-1''" by auto
  with h a show ?thesis by blast
qed

text \<open>
  Claim C5. The flattening step emits exactly one FlattenedHistoryEntry for each ledger entry
  of each item whose parent warehouse is among the loaded warehouses, and nothing for an
  item whose parent warehouse is missing: as a multiset the result is the union, over the
  items, of the widened ledger entries; their number is the sum of the ledger lengths of
  the items with a loaded parent; every emitted entry is a ledger entry of such an item,
  widened with the name and id of the item and of its warehouse; and the list is sorted by
  descending timestamp.
\<close>

theorem flattening_complete_and_sorted:
  "mset (flattenTransactions its whs) =
     (\<Sum>item\<leftarrow>its.
        case find (\<lambda>wh. wh_id wh = item_warehouseId item) whs of
          None \<Rightarrow> {#}
        | Some wh \<Rightarrow> image_mset (widen item wh) (mset (history item))) \<and>
   length (flattenTransactions its whs) =
     (\<Sum>item\<leftarrow>its.
        if item_warehouseId item \<in> wh_id ` set whs then length (history item) else 0) \<and>
   (\<forall>t \<in> set (flattenTransactions its whs).
      \<exists>item \<in> set its. \<exists>wh \<in> set whs.
        wh_id wh = item_warehouseId item \<and>
        HistoryEntry.truncate t \<in> set (history item) \<and>
        itemId t = item_id item \<and> itemName t = item_name item \<and>
        warehouseId t = wh_id wh \<and> warehouseName t = wh_name wh) \<and>
   sorted_wrt (\<lambda>a b. timestamp a \<ge> timestamp b) (flattenTransactions its whs)"
proof -
  let ?flat = "concat (map (flatten_item whs) its)"
  have m: "mset (flattenTransactions its whs) = mset ?flat"
    by (simp add: flattenTransactions_def)
  have c1: "mset ?flat =
     (\<Sum>item\<leftarrow>its.
        case find (\<lambda>wh. wh_id wh = item_warehouseId item) whs of
          None \<Rightarrow> {#}
        | Some wh \<Rightarrow> image_mset (widen item wh) (mset (history item)))"
  proof (induction its)
    case Nil
    show ?case by simp
  next
    case (Cons a its)
    then show ?case by (simp add: flatten_item_def split: option.splits)
  qed
  have c2: "length (flattenTransactions its whs) =
     (\<Sum>item\<leftarrow>its.
        if item_warehouseId item \<in> wh_id ` set whs then length (history item) else 0)"
  proof -
    have "length (flattenTransactions its whs) = length ?flat"
      by (simp add: flattenTransactions_def)
    also have "\<dots> = sum_list (map (\<lambda>item. length (flatten_item whs item)) its)"
      by (simp add: length_concat_sum comp_def)
    also have "\<dots> = (\<Sum>item\<leftarrow>its.
        if item_warehouseId item \<in> wh_id ` set whs then length (history item) else 0)"
      by (rule arg_cong[where f = sum_list]) (simp add: flatten_item_cases)
    finally show ?thesis .
  qed
  have c3: "\<forall>t \<in> set (flattenTransactions its whs).
      \<exists>item \<in> set its. \<exists>wh \<in> set whs.
        wh_id wh = item_warehouseId item \<and>
        HistoryEntry.truncate t \<in> set (history item) \<and>
        itemId t = item_id item \<and> itemName t = item_name item \<and>
        warehouseId t = wh_id wh \<and> warehouseName t = wh_name wh"
  proof
    fix t assume "t \<in> set (flattenTransactions its whs)"
    then have "t \<in> set ?flat" by (simp add: flattenTransactions_def)
    then obtain item where i: "item \<in> set its" and t: "t \<in> set (flatten_item whs item)"
      by auto
    from t obtain wh e where f: "find (\<lambda>wh. wh_id wh = item_warehouseId item) whs = Some wh"
      and e: "e \<in> set (history item)" and te: "t = widen item wh e"
      by (cases "find (\<lambda>wh. wh_id wh = item_warehouseId item) whs")
         (auto simp: flatten_item_def)
    from f have w: "wh \<in> set whs" "wh_id wh = item_warehouseId item"
      by (auto simp: find_Some_iff)
    have tr: "HistoryEntry.truncate t = e" by (simp add: te truncate_widen)
    have fl: "itemId t = item_id item" "itemName t = item_name item"
      "warehouseId t = wh_id wh" "warehouseName t = wh_name wh"
      by (simp_all add: te widen_def)
    from i w e tr fl show "\<exists>item \<in> set its. \<exists>wh \<in> set whs.
        wh_id wh = item_warehouseId item \<and>
        HistoryEntry.truncate t \<in> set (history item) \<and>
        itemId t = item_id item \<and> itemName t = item_name item \<and>
        warehouseId t = wh_id wh \<and> warehouseName t = wh_name wh"
      by blast
  qed
  have "sorted (map (\<lambda>t. - timestamp t) (flattenTransactions its whs))"
    by (simp add: flattenTransactions_def)
  then have c4: "sorted_wrt (\<lambda>a b. timestamp a \<ge> timestamp b) (flattenTransactions its whs)"
    by (simp add: sorted_wrt_map)
  from m c1 c2 c3 c4 show ?thesis by simp
qed

theorem flattening_complete_and_sorted_witness:
  "length (flattenTransactions ex_report_items [ex_warehouse, ex_warehouse2]) = 5 \<and>
   map (\<lambda>t. (timestamp t, itemId t, warehouseName t))
     (flattenTransactions ex_report_items [ex_warehouse, ex_warehouse2]) =
     [(500, ''a'', ''Main store''), (400, ''a'', ''Main store''), (300, ''b'', ''Annex''),
      (200, ''b'', ''Annex''), (100, ''a'', ''Main store'')] \<and>
   sorted_wrt (\<lambda>a b. timestamp a \<ge> timestamp b)
     (flattenTransactions ex_report_items [ex_warehouse, ex_warehouse2])"
proof -
  note th = flattening_complete_and_sorted[of ex_report_items "[ex_warehouse, ex_warehouse2]"]
  from th have "length (flattenTransactions ex_report_items [ex_warehouse, ex_warehouse2]) =
     (\<Sum>item\<leftarrow>ex_report_items.
        if item_warehouseId item \<in> wh_id ` set [ex_warehouse, ex_warehouse2]
        then length (history item) else 0)"
    by blast
  then have l: "length (flattenTransactions ex_report_items [ex_warehouse, ex_warehouse2]) = 5"
    by (simp add: ex_report_items_def ex_item_in_def ex_entry_def ex_warehouse2_def ex_defs)
  have m: "map (\<lambda>t. (timestamp t, itemId t, warehouseName t))
     (flattenTransactions ex_report_items [ex_warehouse, ex_warehouse2]) =
     [(500, ''a'', ''Main store''), (400, ''a'', ''Main store''), (300, ''b'', ''Annex''),
      (200, ''b'', ''Annex''), (100, ''a'', ''Main store'')]"
    by (simp add: flattenTransactions_def flatten_item_def widen_def ex_report_items_def
        ex_item_in_def ex_entry_def ex_warehouse2_def ex_defs)
  from th have "sorted_wrt (\<lambda>a b. timestamp a \<ge> timestamp b)
     (flattenTransactions ex_report_items [ex_warehouse, ex_warehouse2])"
    by blast
  with l m show ?thesis by simp
qed





text \<open>
  Claim C8, for what the handler sends. Archiving a warehouse is two writes, one after the
  other: an update of the warehouse document, then one batch over the items found with the
  warehouse's id. When the first write fails nothing changes. When it succeeds the
  warehouse is archived, whatever happens next: if the query and the batch succeed as
  well, every item whose \<open>warehouseId\<close> is that warehouse is archived (only its
  \<open>isArchived\<close> and \<open>updatedAt\<close> fields change, its ledger stays) and the items of other
  warehouses are unchanged; if one of them fails, the handler reports an error and no item
  has changed. Document ids are unique in a collection.
\<close>

theorem archive_warehouse_cascades:
  assumes "handleArchiveWarehouse ev (Some w) fs = (out, fs')"
    and "distinct (map item_id (db_items fs))"
  shows "if warehousesWriteOk ev \<and> wh_id w \<in> wh_id ` set (db_warehouses fs)
         then (\<exists>w' \<in> set (db_warehouses fs'). wh_id w' = wh_id w) \<and>
              (\<forall>w' \<in> set (db_warehouses fs'). wh_id w' = wh_id w \<longrightarrow> wh_isArchived w') \<and>
              (if itemsQueryOk ev \<and> itemsWriteOk ev
               then out = ToastOk ''Warehouse Archived'' \<and>
                    db_items fs' =
                      map (\<lambda>i. if item_warehouseId i = wh_id w
                                then i\<lparr>item_isArchived := True, item_updatedAt := serverTime ev\<rparr>
                                else i) (db_items fs) \<and>
                    db_calls fs' = db_calls fs @
                      [UpdateDoc_warehouses (wh_id w)
                         [W_isArchived True, W_updatedAt_serverTimestamp],
                       BatchCommit_items
                         (map (\<lambda>d. (item_id d, [F_isArchived True, F_updatedAt_serverTimestamp]))
                            (filter (\<lambda>i. item_warehouseId i = wh_id w) (db_items fs)))]
               else out = ToastError ''Error'' \<and> db_items fs' = db_items fs)
         else out = ToastError ''Error'' \<and> db_warehouses fs' = db_warehouses fs \<and>
              db_items fs' = db_items fs"
proof (cases "warehousesWriteOk ev \<and> wh_id w \<in> wh_id ` set (db_warehouses fs)")
  case False
  from handleArchiveWarehouse_cases[OF assms(1)] show ?thesis
    unfolding if_not_P[OF False] .
next
  case True
  from handleArchiveWarehouse_cases[OF assms(1), unfolded if_P[OF True]]
  have wh: "db_warehouses fs' =
      map (update_warehouse ev (wh_id w) [W_isArchived True, W_updatedAt_serverTimestamp])
        (db_warehouses fs)"
    and rest: "if itemsQueryOk ev \<and> itemsWriteOk ev
       then out = ToastOk ''Warehouse Archived'' \<and>
            db_items fs' =
              map (\<lambda>i. if item_id i \<in> item_id `
                           set (filter (\<lambda>i. item_warehouseId i = wh_id w) (db_items fs))
                        then archive_item ev i else i) (db_items fs) \<and>
            db_calls fs' = db_calls fs @
              [UpdateDoc_warehouses (wh_id w) [W_isArchived True, W_updatedAt_serverTimestamp],
               BatchCommit_items
                 (map (\<lambda>d. (item_id d, [F_isArchived True, F_updatedAt_serverTimestamp]))
                    (filter (\<lambda>i. item_warehouseId i = wh_id w) (db_items fs)))]
       else out = ToastError ''Error'' \<and> db_items fs' = db_items fs"
    by simp_all
  have uid: "wh_id (update_warehouse ev (wh_id w) [W_isArchived True, W_updatedAt_serverTimestamp] x)
      = wh_id x" for x
    by (simp add: update_warehouse_def)
  from wh have "wh_id ` set (db_warehouses fs') = wh_id ` set (db_warehouses fs)"
    by (simp add: image_image uid)
  with True have "wh_id w \<in> wh_id ` set (db_warehouses fs')" by simp
  then have wh1: "\<exists>w' \<in> set (db_warehouses fs'). wh_id w' = wh_id w" by force
  have wh2: "\<forall>w' \<in> set (db_warehouses fs'). wh_id w' = wh_id w \<longrightarrow> wh_isArchived w'"
    using wh by (auto simp: update_warehouse_def)
  have sel: "item_id i \<in> item_id ` set (filter (\<lambda>i. item_warehouseId i = wh_id w) (db_items fs))
      \<longleftrightarrow> item_warehouseId i = wh_id w" if "i \<in> set (db_items fs)" for i
  proof
    assume "item_id i \<in> item_id ` set (filter (\<lambda>i. item_warehouseId i = wh_id w) (db_items fs))"
    then obtain j where j: "j \<in> set (db_items fs)" "item_warehouseId j = wh_id w"
      "item_id i = item_id j" by auto
    with distinct_same_id[OF assms(2) that j(1)] show "item_warehouseId i = wh_id w" by simp
  next
    assume "item_warehouseId i = wh_id w"
    with that show "item_id i \<in> item_id ` set (filter (\<lambda>i. item_warehouseId i = wh_id w) (db_items fs))"
      by auto
  qed
  have m: "map (\<lambda>i. if item_id i \<in> item_id `
                           set (filter (\<lambda>i. item_warehouseId i = wh_id w) (db_items fs))
                        then archive_item ev i else i) (db_items fs) =
      map (\<lambda>i. if item_warehouseId i = wh_id w
                then i\<lparr>item_isArchived := True, item_updatedAt := serverTime ev\<rparr>
                else i) (db_items fs)"
    using sel by (simp add: archive_item_def cong: map_cong)
  show ?thesis
  proof (cases "itemsQueryOk ev \<and> itemsWriteOk ev")
    case ok: True
    from rest[unfolded if_P[OF ok]] m wh1 wh2 show ?thesis
      unfolding if_P[OF True] if_P[OF ok] by simp
  next
    case False
    from rest[unfolded if_not_P[OF False]] wh1 wh2 show ?thesis
      unfolding if_P[OF True] if_not_P[OF False] by simp
  qed
qed

theorem archive_warehouse_cascades_witness:
  "fst (handleArchiveWarehouse (ex_env 9000) (Some ex_warehouse) ex_fs2) =
     ToastOk ''Warehouse Archived'' \<and>
   distinct (map item_id (db_items ex_fs2)) \<and>
   map (\<lambda>i. (item_id i, item_warehouseId i, item_isArchived i)) (db_items ex_fs2) =
     [(''a'', ''w1'', False), (''b'', ''w2'', False), (''c'', ''w9'', False)] \<and>
   map (\<lambda>w. (wh_id w, wh_isArchived w))
     (db_warehouses (snd (handleArchiveWarehouse (ex_env 9000) (Some ex_warehouse) ex_fs2))) =
     [(''w1'', True), (''w2'', False)] \<and>
   map (\<lambda>i. (item_id i, item_warehouseId i, item_isArchived i))
     (db_items (snd (handleArchiveWarehouse (ex_env 9000) (Some ex_warehouse) ex_fs2))) =
     [(''a'', ''w1'', True), (''b'', ''w2'', False), (''c'', ''w9'', False)] \<and>
   map history (db_items (snd (handleArchiveWarehouse (ex_env 9000) (Some ex_warehouse) ex_fs2))) =
     map history (db_items ex_fs2)"
proof -
  let ?r = "handleArchiveWarehouse (ex_env 9000) (Some ex_warehouse) ex_fs2"
  note fs2 = ex_fs2_def ex_report_items_def ex_item_in_def ex_entry_def ex_warehouse2_def
  have h1: "?r = (fst ?r, snd ?r)" by simp
  have h2: "distinct (map item_id (db_items ex_fs2))" by (simp add: fs2)
  have fl: "warehousesWriteOk (ex_env 9000) \<and>
      wh_id ex_warehouse \<in> wh_id ` set (db_warehouses ex_fs2)"
    "itemsQueryOk (ex_env 9000) \<and> itemsWriteOk (ex_env 9000)"
    by (simp_all add: ex_env_def fs2 ex_warehouse_def)
  have b: "map (\<lambda>i. (item_id i, item_warehouseId i, item_isArchived i)) (db_items ex_fs2) =
     [(''a'', ''w1'', False), (''b'', ''w2'', False), (''c'', ''w9'', False)]"
    by (simp add: fs2)
  have w: "map (\<lambda>w. (wh_id w, wh_isArchived w)) (db_warehouses (snd ?r)) =
     [(''w1'', True), (''w2'', False)]"
    by (simp add: handleArchiveWarehouse_def updateDoc_warehouses_def batchCommit_items_def
        update_warehouse_def Let_def fs2 ex_defs)
  from archive_warehouse_cascades[OF h1 h2] fl
  have ok: "fst ?r = ToastOk ''Warehouse Archived''"
    and it: "db_items (snd ?r) =
           map (\<lambda>i. if item_warehouseId i = wh_id ex_warehouse
                     then i\<lparr>item_isArchived := True, item_updatedAt := serverTime (ex_env 9000)\<rparr>
                     else i) (db_items ex_fs2)"
    by simp_all
  have a: "map (\<lambda>i. (item_id i, item_warehouseId i, item_isArchived i)) (db_items (snd ?r)) =
     [(''a'', ''w1'', True), (''b'', ''w2'', False), (''c'', ''w9'', False)]"
    unfolding it by (simp add: fs2 ex_defs)
  have hs: "map history (db_items (snd ?r)) = map history (db_items ex_fs2)"
    unfolding it by (simp add: fs2 ex_defs)
  from ok h2 b w a hs show ?thesis by simp
qed

text \<open>
  Claim C8 does not hold as one operation. When the batch on the items is rejected, the
  update of the warehouse document has already been applied and is not taken back: the
  handler reports an error, the warehouse is archived, and none of its items is.
\<close>

theorem archive_warehouse_partial_counterexample:
  "fst (handleArchiveWarehouse ex_env_items_down (Some ex_warehouse) ex_fs2) =
     ToastError ''Error'' \<and>
   map (\<lambda>w. (wh_id w, wh_isArchived w))
     (db_warehouses (snd (handleArchiveWarehouse ex_env_items_down (Some ex_warehouse) ex_fs2))) =
     [(''w1'', True), (''w2'', False)] \<and>
   map (\<lambda>i. (item_id i, item_warehouseId i, item_isArchived i))
     (db_items (snd (handleArchiveWarehouse ex_env_items_down (Some ex_warehouse) ex_fs2))) =
     [(''a'', ''w1'', False), (''b'', ''w2'', False), (''c'', ''w9'', False)] \<and>
   db_calls (snd (handleArchiveWarehouse ex_env_items_down (Some ex_warehouse) ex_fs2)) =
     [UpdateDoc_warehouses ''w1'' [W_isArchived True, W_updatedAt_serverTimestamp],
      BatchCommit_items [(''a'', [F_isArchived True, F_updatedAt_serverTimestamp])]]"
  by (simp add: handleArchiveWarehouse_def updateDoc_warehouses_def batchCommit_items_def
      update_warehouse_def Let_def ex_env_items_down_def ex_fs2_def ex_report_items_def
      ex_item_in_def ex_entry_def ex_warehouse2_def ex_defs)



text \<open>
  Claim C10. The report that the warehouse list's print action archives has the empty list
  as \<open>itemsSnapshot\<close>, whatever the warehouse (the handler never reads the items), and
  reprinting it renders that warehouse with no items; the reprint reports invalid data only
  for a warehouse whose id or name is empty.
\<close>

theorem warehouse_report_snapshot_empty:
  assumes "storageOk ev"
  shows "\<exists>r. stored_reports (handlePrintWarehouseReport ev w ls) = stored_reports ls @ [r] \<and>
             reportType r = Some WAREHOUSE \<and>
             itemsSnapshot r = Some [] \<and>
             (\<forall>ev'. case handlePrintArchivedReport ev' r of
                      PrintableWarehouseReport wv its pb pd \<Rightarrow>
                        its = [] \<and> wh_id wv = wh_id w \<and> wh_name wv = wh_name w
                    | PrintableItemReport wn it pb pd \<Rightarrow> False
                    | InvalidReportData \<Rightarrow> wh_id w = [] \<or> wh_name w = [])"
  using assms
  by (auto simp: handlePrintWarehouseReport_def stored_reports_def handlePrintArchivedReport_def
      Let_def split: option.splits)

theorem warehouse_report_snapshot_empty_witness:
  "storageOk (ex_env 7000) \<and>
   (\<exists>r wv pb pd.
      stored_reports (handlePrintWarehouseReport (ex_env 7000) ex_warehouse None) = [r] \<and>
      reportType r = Some WAREHOUSE \<and> itemsSnapshot r = Some [] \<and>
      handlePrintArchivedReport (ex_env 8000) r = PrintableWarehouseReport wv [] pb pd \<and>
      wh_id wv = ''w1'' \<and> wh_name wv = ''Main store'')"
proof -
  have h: "storageOk (ex_env 7000)" by (simp add: ex_env_def)
  from warehouse_report_snapshot_empty[OF h, of ex_warehouse None]
  obtain r where r: "stored_reports (handlePrintWarehouseReport (ex_env 7000) ex_warehouse None) = [r]"
      "reportType r = Some WAREHOUSE" "itemsSnapshot r = Some []"
    and c: "case handlePrintArchivedReport (ex_env 8000) r of
              PrintableWarehouseReport wv its pb pd \<Rightarrow>
                its = [] \<and> wh_id wv = wh_id ex_warehouse \<and> wh_name wv = wh_name ex_warehouse
            | PrintableItemReport wn it pb pd \<Rightarrow> False
            | InvalidReportData \<Rightarrow> wh_id ex_warehouse = [] \<or> wh_name ex_warehouse = []"
    by (auto simp: stored_reports_def)
  have n: "wh_id ex_warehouse = ''w1''" "wh_name ex_warehouse = ''Main store''"
    by (simp_all add: ex_warehouse_def)
  from c n obtain wv pb pd where
    "handlePrintArchivedReport (ex_env 8000) r = PrintableWarehouseReport wv [] pb pd"
    "wh_id wv = ''w1''" "wh_name wv = ''Main store''"
    by (cases "handlePrintArchivedReport (ex_env 8000) r") auto
  with h r show ?thesis by blast
qed

end
